theory Spec2Isabelle
  imports Complex_Main
begin

section \<open>Array elements\<close>

text \<open>
  The arrays of \<^verbatim>\<open>deterministic.py\<close> hold IEEE-754 doubles.  The model has the two
  infinities, not-a-number and both zeros: \<open>Fin 0\<close> is \<open>+0.0\<close> and \<open>NZero\<close> is \<open>-0.0\<close>.  A
  finite value \<open>Fin x\<close> stands for the double nearest to \<open>x\<close>; the entries of the arrays a
  caller supplies are doubles themselves.  Rounding to nearest is monotone and exact at
  the doubles, so it changes neither the sign of a value nor the order of two values
  beyond making them equal; where it leaves the finite doubles (overflow) or reaches zero
  (underflow) the model says so.
\<close>

datatype fval = NaN | NInf | NZero | Fin real | PInf

text \<open>The numerical value of a finite double.\<close>

fun rv :: "fval \<Rightarrow> real" where
  "rv (Fin x) = x"
| "rv v = 0"

text \<open>An exact result of this magnitude or more rounds to an infinity: half a unit in the
  last place above the largest double, \<^verbatim>\<open>(2 - 2**-52) * 2**1023\<close>.\<close>

definition overflow_at :: real where
  "overflow_at = 2 ^ 1024 - 2 ^ 970"

text \<open>An exact result of this magnitude or less rounds to a zero: half the smallest
  positive double, \<^verbatim>\<open>2**-1074\<close> (the tie goes to the even neighbour, zero).\<close>

definition underflow_at :: real where
  "underflow_at = 1 / 2 ^ 1075"

definition signed_inf :: "bool \<Rightarrow> fval" where
  "signed_inf neg = (if neg then NInf else PInf)"

definition signed_zero :: "bool \<Rightarrow> fval" where
  "signed_zero neg = (if neg then NZero else Fin 0)"

text \<open>The double for an exact quotient \<open>q\<close> that is not zero.\<close>

definition round_quot :: "real \<Rightarrow> fval" where
  "round_quot q =
     (if overflow_at \<le> \<bar>q\<bar> then signed_inf (q < 0)
      else if \<bar>q\<bar> \<le> underflow_at then signed_zero (q < 0)
      else Fin q)"

text \<open>\<^verbatim>\<open>x / y\<close> on doubles (numpy's \<^verbatim>\<open>true_divide\<close>): division by zero does not
  raise, it yields an infinity or, for \<^verbatim>\<open>0 / 0\<close>, not-a-number.  The sign of a result
  that is not not-a-number is negative exactly when one operand is negative and the other
  is not, also for zeros and infinities.\<close>

fun fdiv :: "fval \<Rightarrow> fval \<Rightarrow> fval" where
  "fdiv NaN y = NaN"
| "fdiv x NaN = NaN"
| "fdiv (Fin x) (Fin y) =
     (if y = 0 then (if x = 0 then NaN else signed_inf (x < 0))
      else if x = 0 then signed_zero (y < 0)
      else round_quot (x / y))"
| "fdiv (Fin x) NZero = (if x = 0 then NaN else signed_inf (0 < x))"
| "fdiv NZero (Fin y) = (if y = 0 then NaN else signed_zero (0 < y))"
| "fdiv NZero NZero = NaN"
| "fdiv (Fin x) PInf = signed_zero (x < 0)"
| "fdiv (Fin x) NInf = signed_zero (0 \<le> x)"
| "fdiv NZero PInf = NZero"
| "fdiv NZero NInf = Fin 0"
| "fdiv PInf (Fin y) = signed_inf (y < 0)"
| "fdiv PInf NZero = NInf"
| "fdiv NInf (Fin y) = signed_inf (0 \<le> y)"
| "fdiv NInf NZero = PInf"
| "fdiv x y = NaN"

text \<open>\<^verbatim>\<open>x < y\<close> on doubles: every comparison with not-a-number is false, and the two
  zeros are equal.\<close>

fun fless :: "fval \<Rightarrow> fval \<Rightarrow> bool" where
  "fless NaN y = False"
| "fless x NaN = False"
| "fless PInf y = False"
| "fless x NInf = False"
| "fless NInf y = True"
| "fless x PInf = True"
| "fless x y = (rv x < rv y)"

text \<open>The larger and the smaller of two values that are not not-a-number.  Of two equal
  values the first is kept; which zero a reduction of numpy returns when both zeros are
  extremal is not fixed, and no statement below depends on it.\<close>

definition fmax2 :: "fval \<Rightarrow> fval \<Rightarrow> fval" where
  "fmax2 x y = (if fless x y then y else x)"

definition fmin2 :: "fval \<Rightarrow> fval \<Rightarrow> fval" where
  "fmin2 x y = (if fless y x then y else x)"

text \<open>The reductions \<^verbatim>\<open>.max()\<close> and \<^verbatim>\<open>.min()\<close> of a labeled array of doubles skip
  not-a-number entries (\<^verbatim>\<open>skipna\<close>); when nothing is left the result is not-a-number.\<close>

definition nanreduce :: "(fval \<Rightarrow> fval \<Rightarrow> fval) \<Rightarrow> fval list \<Rightarrow> fval" where
  "nanreduce f xs =
     (case filter (\<lambda>v. v \<noteq> NaN) xs of [] \<Rightarrow> NaN | y # ys \<Rightarrow> foldl f y ys)"

section \<open>Errors\<close>

text \<open>A piece of an error message: literal text, or the printed form of an interpolated
  value of the f-string (the list of dimension names, a dictionary of sizes).\<close>

datatype frag = Lit string | Fmt_dims "string list" | Fmt_sizes "(string \<times> nat) list"

text \<open>What the labeled-array engine itself can raise on the paths modelled here.\<close>

datatype engine_failure =
    Empty_reduction       \<comment> \<open>\<^verbatim>\<open>.max()\<close> or \<^verbatim>\<open>.min()\<close> of an array with no element\<close>
  | Index_out_of_bounds   \<comment> \<open>\<^verbatim>\<open>isel\<close> at index 0 of a dimension of size 0\<close>
  | Invalid_dimensions    \<comment> \<open>\<^verbatim>\<open>stack\<close> of dimensions the array does not have\<close>
  | Dimension_exists      \<comment> \<open>\<^verbatim>\<open>stack\<close> into a name the array already uses\<close>
  | Conflicting_sizes     \<comment> \<open>\<^verbatim>\<open>broadcast\<close> of arrays that disagree on a size\<close>

datatype error =
    ValueError "frag list"        \<comment> \<open>raised by \<^verbatim>\<open>_preprocess_weights\<close>\<close>
  | IndexError                    \<comment> \<open>\<^verbatim>\<open>dim[0]\<close> of an empty list\<close>
  | EngineError engine_failure    \<comment> \<open>raised inside the array engine\<close>

section \<open>The dimension normalizer\<close>

text \<open>The argument \<^verbatim>\<open>dim\<close>: one name or a list of names.  The same two shapes occur for
  \<^verbatim>\<open>new_dim\<close> of the weight preprocessor.\<close>

datatype dim_spec = Str string | Lst "string list"

text \<open>Python's \<^verbatim>\<open>range(start, stop, step)\<close> as a list.  A zero step (a \<^verbatim>\<open>ValueError\<close>
  in Python) yields the empty list here; the source only ever passes the literal step -1.\<close>

function py_range :: "int \<Rightarrow> int \<Rightarrow> int \<Rightarrow> int list" where
  "py_range start stop step =
     (if 0 < step \<and> start < stop then start # py_range (start + step) stop step
      else if step < 0 \<and> stop < start then start # py_range (start + step) stop step
      else [])"
  by pat_completeness auto
termination
  by (relation "measure (\<lambda>(start, stop, step).
        nat (if 0 < step then stop - start else start - stop))") auto

declare py_range.simps [simp del]

definition preprocess_dims :: "dim_spec \<Rightarrow> string list \<times> int list" where
  "preprocess_dims d =
     (let ds = (case d of Str s \<Rightarrow> [s] | Lst xs \<Rightarrow> xs);
          axis = py_range (- 1) (- int (length ds) - 1) (- 1)
      in (ds, axis))"

section \<open>Labeled arrays\<close>

text \<open>
  A \<^verbatim>\<open>DataArray\<close>: the names of its dimensions in order, the size of each, and the values
  in row-major order.  Coordinates and attributes play no part in the functions modelled
  and are left out.
\<close>

record data_array =
  dims :: "string list"
  shape :: "nat list"
  vals :: "fval list"

text \<open>The invariant every array of the engine satisfies.\<close>

definition wf_array :: "data_array \<Rightarrow> bool" where
  "wf_array a \<longleftrightarrow>
     distinct (dims a) \<and> length (shape a) = length (dims a)
     \<and> length (vals a) = prod_list (shape a)"

text \<open>\<^verbatim>\<open>dict(a.sizes)\<close>: a dictionary in insertion order, from dimension name to size.\<close>

definition sizes :: "data_array \<Rightarrow> (string \<times> nat) list" where
  "sizes a = zip (dims a) (shape a)"

text \<open>Equality of two dictionaries (\<^verbatim>\<open>==\<close>): same keys, same value under each key,
  whatever the order.\<close>

definition dict_eq :: "(string \<times> nat) list \<Rightarrow> (string \<times> nat) list \<Rightarrow> bool" where
  "dict_eq xs ys = list_all (\<lambda>k. map_of xs k = map_of ys k) (map fst xs @ map fst ys)"

text \<open>All index tuples of a shape, in row-major order.\<close>

fun indices :: "nat list \<Rightarrow> nat list list" where
  "indices [] = [[]]"
| "indices (n # ns) = concat (map (\<lambda>i. map ((#) i) (indices ns)) [0..<n])"

text \<open>The position in \<open>vals\<close> of the element at the indices \<open>env\<close> gives to each dimension.\<close>

definition offset :: "(string \<times> nat) list \<Rightarrow> (string \<Rightarrow> nat) \<Rightarrow> nat" where
  "offset sz env = foldl (\<lambda>acc (d, n). acc * n + env d) 0 sz"

definition env_of :: "string list \<Rightarrow> nat list \<Rightarrow> string \<Rightarrow> nat" where
  "env_of ds idx d = (case map_of (zip ds idx) d of Some i \<Rightarrow> i | None \<Rightarrow> 0)"

definition lookup :: "data_array \<Rightarrow> (string \<Rightarrow> nat) \<Rightarrow> fval" where
  "lookup a env = vals a ! offset (sizes a) env"

text \<open>
  The array with dimensions and sizes \<open>sz\<close> whose element at an index tuple is the element
  of \<open>a\<close> at the same index along each dimension of \<open>a\<close> that \<open>sz\<close> names, and at index 0 along
  the others.  Transposition, selection at index 0 and broadcasting are instances.  The
  callers below check sizes first, so that no read leaves \<open>vals a\<close> for a well-formed \<open>a\<close>.
\<close>

definition reindex :: "data_array \<Rightarrow> (string \<times> nat) list \<Rightarrow> data_array" where
  "reindex a sz =
     \<lparr>dims = map fst sz, shape = map snd sz,
      vals = map (\<lambda>idx. lookup a (env_of (map fst sz) idx)) (indices (map snd sz))\<rparr>"

text \<open>\<^verbatim>\<open>a.isel({k: 0 for k in ks})\<close>: index 0 along each listed dimension, which then
  disappears from the result; an \<^verbatim>\<open>IndexError\<close> of the engine when such a dimension has
  size 0.  The source only passes names of dimensions of \<open>a\<close>.\<close>

definition isel0 :: "data_array \<Rightarrow> string list \<Rightarrow> error + data_array" where
  "isel0 a ks =
     (if list_ex (\<lambda>(d, n). d \<in> set ks \<and> n = 0) (sizes a)
      then Inl (EngineError Index_out_of_bounds)
      else Inr (reindex a (filter (\<lambda>(d, n). d \<notin> set ks) (sizes a))))"

text \<open>\<^verbatim>\<open>xr.broadcast(a, w)\<close>: both arrays over the dimensions of \<open>a\<close> followed by those
  only \<open>w\<close> has, each replicated along the dimensions it lacks.\<close>

definition broadcast :: "data_array \<Rightarrow> data_array \<Rightarrow> error + data_array \<times> data_array" where
  "broadcast a w =
     (if list_ex (\<lambda>(d, n). case map_of (sizes a) d of Some m \<Rightarrow> m \<noteq> n | None \<Rightarrow> False) (sizes w)
      then Inl (EngineError Conflicting_sizes)
      else let sz = sizes a @ filter (\<lambda>(d, n). d \<notin> set (dims a)) (sizes w)
           in Inr (reindex a sz, reindex w sz))"

definition size_of :: "data_array \<Rightarrow> string \<Rightarrow> nat" where
  "size_of a d = (case map_of (sizes a) d of Some n \<Rightarrow> n | None \<Rightarrow> 0)"

text \<open>\<^verbatim>\<open>a.stack(**{new: ds})\<close>: the dimensions \<open>ds\<close> are moved to the end in the order
  given and merged into one dimension \<open>new\<close>, whose size is the product of theirs.\<close>

definition stack :: "data_array \<Rightarrow> string \<Rightarrow> string list \<Rightarrow> error + data_array" where
  "stack a new ds =
     (if \<not> (distinct ds \<and> list_all (\<lambda>d. d \<in> set (dims a)) ds)
      then Inl (EngineError Invalid_dimensions)
      else if new \<in> set (dims a) then Inl (EngineError Dimension_exists)
      else if ds = [] then Inr a
      else let other = filter (\<lambda>(d, n). d \<notin> set ds) (sizes a);
               core = map (\<lambda>d. (d, size_of a d)) ds;
               reordered = reindex a (other @ core)
           in Inr \<lparr>dims = map fst other @ [new],
                   shape = map snd other @ [prod_list (map snd core)],
                   vals = vals reordered\<rparr>)"

text \<open>\<^verbatim>\<open>xr.ones_like(a)\<close>, \<^verbatim>\<open>w.max()\<close>, \<^verbatim>\<open>w.min()\<close> and \<^verbatim>\<open>w / m\<close> for a scalar \<open>m\<close>.  The
  reduction of an array without elements is an error of the engine.\<close>

definition ones_like :: "data_array \<Rightarrow> data_array" where
  "ones_like a = a\<lparr>vals := map (\<lambda>_. Fin 1) (vals a)\<rparr>"

definition array_max :: "data_array \<Rightarrow> error + fval" where
  "array_max w =
     (if vals w = [] then Inl (EngineError Empty_reduction) else Inr (nanreduce fmax2 (vals w)))"

definition array_min :: "data_array \<Rightarrow> error + fval" where
  "array_min w =
     (if vals w = [] then Inl (EngineError Empty_reduction) else Inr (nanreduce fmin2 (vals w)))"

definition array_div :: "data_array \<Rightarrow> fval \<Rightarrow> data_array" where
  "array_div w m = w\<lparr>vals := map (\<lambda>v. fdiv v m) (vals w)\<rparr>"

section \<open>The weight preprocessor\<close>

text \<open>Python's \<^verbatim>\<open>i in new_dim\<close>: a substring test when \<^verbatim>\<open>new_dim\<close> is a string, a
  membership test when it is a list.\<close>

fun is_prefix :: "'a list \<Rightarrow> 'a list \<Rightarrow> bool" where
  "is_prefix [] s = True"
| "is_prefix (c # p) [] = False"
| "is_prefix (c # p) (d # s) = (c = d \<and> is_prefix p s)"

fun str_contains :: "'a list \<Rightarrow> 'a list \<Rightarrow> bool" where
  "str_contains i [] = (i = [])"
| "str_contains i (c # s) = (is_prefix i (c # s) \<or> str_contains i s)"

definition py_in :: "string \<Rightarrow> dim_spec \<Rightarrow> bool" where
  "py_in i new_dim = (case new_dim of Str s \<Rightarrow> str_contains i s | Lst ds \<Rightarrow> i \<in> set ds)"

definition negative_msg :: "frag list" where
  "negative_msg =
     [Lit (''Weights has a minimum below 0. Please submit a weights array ''
           @ ''of positive numbers.'')]"

definition mismatch_msg ::
  "string list \<Rightarrow> (string \<times> nat) list \<Rightarrow> (string \<times> nat) list \<Rightarrow> frag list" where
  "mismatch_msg ds wsz asz =
     [Lit ''weights dimension(s) '', Fmt_dims ds, Lit '' of size '', Fmt_sizes wsz,
      Lit ('' does not match DataArray'' @ [CHR 0x27] @ ''s size ''), Fmt_sizes asz]"

text \<open>\<^verbatim>\<open>_preprocess_weights(a, dim, new_dim, weights)\<close>, lines 23 to 60.\<close>

definition preprocess_weights ::
  "data_array \<Rightarrow> string list \<Rightarrow> dim_spec \<Rightarrow> data_array option \<Rightarrow> error + data_array" where
  "preprocess_weights a ds new_dim weights =
     (case weights of
        None \<Rightarrow> Inr (ones_like a)
      | Some w \<Rightarrow>
          (case array_max w of
             Inl e \<Rightarrow> Inl e
           | Inr m \<Rightarrow>
               let w1 = array_div w m in
               (case array_min w1 of
                  Inl e \<Rightarrow> Inl e
                | Inr lo \<Rightarrow>
                    if fless lo (Fin 0) then Inl (ValueError negative_msg)
                    else
                      let drop_dims = filter (\<lambda>i. \<not> py_in i new_dim) (dims a) in
                      (case isel0 a drop_dims of
                         Inl e \<Rightarrow> Inl e
                       | Inr a0 \<Rightarrow>
                           if \<not> dict_eq (sizes w1) (sizes a0)
                           then Inl (ValueError (mismatch_msg ds (sizes w1) (sizes a0)))
                           else if \<not> dict_eq (sizes w1) (sizes a)
                           then (case broadcast a w1 of
                                   Inl e \<Rightarrow> Inl e
                                 | Inr (_, w2) \<Rightarrow> Inr w2)
                           else Inr w1))))"

section \<open>The metric functions\<close>

text \<open>
  Each metric ends in one call of \<^verbatim>\<open>xr.apply_ufunc\<close> with a numeric kernel of
  \<^verbatim>\<open>np_deterministic\<close>.  Neither is part of the module: the call is a record of its
  arguments, and the metric functions take \<^verbatim>\<open>xr.apply_ufunc\<close> as a parameter.
\<close>

datatype kernel = Np_pearson_r | Np_pearson_r_p_value | Np_rmse | Np_mse | Np_mae

datatype axis_arg = Axis_int int | Axis_tuple "int list"

record ufunc_call =
  func :: kernel
  inputs :: "data_array list"
  input_core_dims :: "string list list"
  axis :: axis_arg

text \<open>\<^verbatim>\<open>sep.join(xs)\<close>.\<close>

fun join :: "string \<Rightarrow> string list \<Rightarrow> string" where
  "join sep [] = []"
| "join sep [x] = x"
| "join sep (x # y # ys) = x @ sep @ join sep (y # ys)"

text \<open>\<^verbatim>\<open>pearson_r(a, b, dim, weights=None)\<close>, lines 91 to 107, and
  \<^verbatim>\<open>pearson_r_p_value\<close>, lines 138 to 153, which differ in the kernel only.\<close>

definition pearson_r ::
  "(ufunc_call \<Rightarrow> 'r) \<Rightarrow> data_array \<Rightarrow> data_array \<Rightarrow> dim_spec \<Rightarrow> data_array option
     \<Rightarrow> error + 'r" where
  "pearson_r apply_ufunc a b d weights =
     (let (ds, _) = preprocess_dims d in
      if 1 < length ds then
        let new_dim = join ''_'' ds in
        (case stack a new_dim ds of
           Inl e \<Rightarrow> Inl e
         | Inr a' \<Rightarrow>
             (case stack b new_dim ds of
                Inl e \<Rightarrow> Inl e
              | Inr b' \<Rightarrow>
                  (case (case weights of
                           None \<Rightarrow> Inr None
                         | Some w \<Rightarrow>
                             (case stack w new_dim ds of
                                Inl e \<Rightarrow> Inl e
                              | Inr w' \<Rightarrow> Inr (Some w'))) of
                     Inl e \<Rightarrow> Inl e
                   | Inr weights' \<Rightarrow>
                       (case preprocess_weights a' ds (Str new_dim) weights' of
                          Inl e \<Rightarrow> Inl e
                        | Inr wts \<Rightarrow>
                            Inr (apply_ufunc \<lparr>func = Np_pearson_r, inputs = [a', b', wts],
                                   input_core_dims = [[new_dim], [new_dim], [new_dim]],
                                   axis = Axis_int (- 1)\<rparr>)))))
      else
        (case ds of
           [] \<Rightarrow> Inl IndexError
         | new_dim # _ \<Rightarrow>
             (case preprocess_weights a ds (Str new_dim) weights of
                Inl e \<Rightarrow> Inl e
              | Inr wts \<Rightarrow>
                  Inr (apply_ufunc \<lparr>func = Np_pearson_r, inputs = [a, b, wts],
                         input_core_dims = [[new_dim], [new_dim], [new_dim]],
                         axis = Axis_int (- 1)\<rparr>))))"

definition pearson_r_p_value ::
  "(ufunc_call \<Rightarrow> 'r) \<Rightarrow> data_array \<Rightarrow> data_array \<Rightarrow> dim_spec \<Rightarrow> data_array option
     \<Rightarrow> error + 'r" where
  "pearson_r_p_value apply_ufunc a b d weights =
     (let (ds, _) = preprocess_dims d in
      if 1 < length ds then
        let new_dim = join ''_'' ds in
        (case stack a new_dim ds of
           Inl e \<Rightarrow> Inl e
         | Inr a' \<Rightarrow>
             (case stack b new_dim ds of
                Inl e \<Rightarrow> Inl e
              | Inr b' \<Rightarrow>
                  (case (case weights of
                           None \<Rightarrow> Inr None
                         | Some w \<Rightarrow>
                             (case stack w new_dim ds of
                                Inl e \<Rightarrow> Inl e
                              | Inr w' \<Rightarrow> Inr (Some w'))) of
                     Inl e \<Rightarrow> Inl e
                   | Inr weights' \<Rightarrow>
                       (case preprocess_weights a' ds (Str new_dim) weights' of
                          Inl e \<Rightarrow> Inl e
                        | Inr wts \<Rightarrow>
                            Inr (apply_ufunc \<lparr>func = Np_pearson_r_p_value, inputs = [a', b', wts],
                                   input_core_dims = [[new_dim], [new_dim], [new_dim]],
                                   axis = Axis_int (- 1)\<rparr>)))))
      else
        (case ds of
           [] \<Rightarrow> Inl IndexError
         | new_dim # _ \<Rightarrow>
             (case preprocess_weights a ds (Str new_dim) weights of
                Inl e \<Rightarrow> Inl e
              | Inr wts \<Rightarrow>
                  Inr (apply_ufunc \<lparr>func = Np_pearson_r_p_value, inputs = [a, b, wts],
                         input_core_dims = [[new_dim], [new_dim], [new_dim]],
                         axis = Axis_int (- 1)\<rparr>))))"

text \<open>\<^verbatim>\<open>rmse\<close>, lines 184 to 191, \<^verbatim>\<open>mse\<close>, lines 222 to 229, and \<^verbatim>\<open>mae\<close>, lines 260
  to 267.\<close>

definition rmse ::
  "(ufunc_call \<Rightarrow> 'r) \<Rightarrow> data_array \<Rightarrow> data_array \<Rightarrow> dim_spec \<Rightarrow> data_array option
     \<Rightarrow> error + 'r" where
  "rmse apply_ufunc a b d weights =
     (let (ds, ax) = preprocess_dims d in
      case preprocess_weights a ds (Lst ds) weights of
        Inl e \<Rightarrow> Inl e
      | Inr wts \<Rightarrow>
          Inr (apply_ufunc \<lparr>func = Np_rmse, inputs = [a, b, wts],
                 input_core_dims = [ds, ds, ds], axis = Axis_tuple ax\<rparr>))"

definition mse ::
  "(ufunc_call \<Rightarrow> 'r) \<Rightarrow> data_array \<Rightarrow> data_array \<Rightarrow> dim_spec \<Rightarrow> data_array option
     \<Rightarrow> error + 'r" where
  "mse apply_ufunc a b d weights =
     (let (ds, ax) = preprocess_dims d in
      case preprocess_weights a ds (Lst ds) weights of
        Inl e \<Rightarrow> Inl e
      | Inr wts \<Rightarrow>
          Inr (apply_ufunc \<lparr>func = Np_mse, inputs = [a, b, wts],
                 input_core_dims = [ds, ds, ds], axis = Axis_tuple ax\<rparr>))"

definition mae ::
  "(ufunc_call \<Rightarrow> 'r) \<Rightarrow> data_array \<Rightarrow> data_array \<Rightarrow> dim_spec \<Rightarrow> data_array option
     \<Rightarrow> error + 'r" where
  "mae apply_ufunc a b d weights =
     (let (ds, ax) = preprocess_dims d in
      case preprocess_weights a ds (Lst ds) weights of
        Inl e \<Rightarrow> Inl e
      | Inr wts \<Rightarrow>
          Inr (apply_ufunc \<lparr>func = Np_mae, inputs = [a, b, wts],
                 input_core_dims = [ds, ds, ds], axis = Axis_tuple ax\<rparr>))"

section \<open>Auxiliary notions for the statements\<close>

text \<open>What the two correlation functions compute before the call, by the lines they
  share (91 to 100 and 138 to 147): the arrays, the name of the dimension to reduce and
  the weights that go into the call.\<close>

definition stack_inputs ::
  "data_array \<Rightarrow> data_array \<Rightarrow> dim_spec \<Rightarrow> data_array option
     \<Rightarrow> error + data_array \<times> data_array \<times> string \<times> data_array" where
  "stack_inputs a b d weights =
     (let (ds, _) = preprocess_dims d in
      if 1 < length ds then
        let new_dim = join ''_'' ds in
        (case stack a new_dim ds of
           Inl e \<Rightarrow> Inl e
         | Inr a' \<Rightarrow>
             (case stack b new_dim ds of
                Inl e \<Rightarrow> Inl e
              | Inr b' \<Rightarrow>
                  (case (case weights of
                           None \<Rightarrow> Inr None
                         | Some w \<Rightarrow>
                             (case stack w new_dim ds of
                                Inl e \<Rightarrow> Inl e
                              | Inr w' \<Rightarrow> Inr (Some w'))) of
                     Inl e \<Rightarrow> Inl e
                   | Inr weights' \<Rightarrow>
                       (case preprocess_weights a' ds (Str new_dim) weights' of
                          Inl e \<Rightarrow> Inl e
                        | Inr wts \<Rightarrow> Inr (a', b', new_dim, wts)))))
      else
        (case ds of
           [] \<Rightarrow> Inl IndexError
         | new_dim # _ \<Rightarrow>
             (case preprocess_weights a ds (Str new_dim) weights of
                Inl e \<Rightarrow> Inl e
              | Inr wts \<Rightarrow> Inr (a, b, new_dim, wts))))"

text \<open>Lines 48 to 60 of \<^verbatim>\<open>_preprocess_weights\<close>: what becomes of the normalized weights
  \<open>w1\<close> once the sign check has let them through.\<close>

definition size_check ::
  "data_array \<Rightarrow> string list \<Rightarrow> dim_spec \<Rightarrow> data_array \<Rightarrow> error + data_array" where
  "size_check a ds new_dim w1 =
     (let drop_dims = filter (\<lambda>i. \<not> py_in i new_dim) (dims a) in
      case isel0 a drop_dims of
        Inl e \<Rightarrow> Inl e
      | Inr a0 \<Rightarrow>
          if \<not> dict_eq (sizes w1) (sizes a0)
          then Inl (ValueError (mismatch_msg ds (sizes w1) (sizes a0)))
          else if \<not> dict_eq (sizes w1) (sizes a)
          then (case broadcast a w1 of
                  Inl e \<Rightarrow> Inl e
                | Inr (_, w2) \<Rightarrow> Inr w2)
          else Inr w1)"

text \<open>A value with the sign bit clear that is not not-a-number: a positive number,
  \<open>+0.0\<close> or plus infinity.\<close>

definition positive_sign :: "fval \<Rightarrow> bool" where
  "positive_sign v = (case v of Fin x \<Rightarrow> 0 \<le> x | PInf \<Rightarrow> True | _ \<Rightarrow> False)"

text \<open>A one-dimensional array of finite values, \<^verbatim>\<open>xr.DataArray(xs, dims=[d])\<close>.\<close>

definition series :: "string \<Rightarrow> real list \<Rightarrow> data_array" where
  "series d xs = \<lparr>dims = [d], shape = [length xs], vals = map Fin xs\<rparr>"

text \<open>A value is a number of the interval from 0 to 1, by the comparisons of doubles
  (\<open>0 <= v <= 1\<close>, which \<open>-0.0\<close> satisfies).\<close>

definition in_unit_interval :: "fval \<Rightarrow> bool" where
  "in_unit_interval v =
     (case v of Fin x \<Rightarrow> 0 \<le> x \<and> x \<le> 1 | NZero \<Rightarrow> True | _ \<Rightarrow> False)"

text \<open>The weights a metric hands to the kernel: the third input of the call.\<close>

definition passed_weights :: "error + ufunc_call \<Rightarrow> error + data_array" where
  "passed_weights r = (case r of Inl e \<Rightarrow> Inl e | Inr c \<Rightarrow> Inr (inputs c ! 2))"

text \<open>The outcome is one of the two validation errors of the weight preprocessor.\<close>

definition is_value_error :: "error + 'r \<Rightarrow> bool" where
  "is_value_error r = (case r of Inl (ValueError msg) \<Rightarrow> True | _ \<Rightarrow> False)"

text \<open>The size mapping of \<open>a\<close> restricted to the dimensions named in \<open>ds\<close>, as the
  specification words the mapping the weights are compared with.\<close>

definition restrict_sizes :: "data_array \<Rightarrow> string list \<Rightarrow> (string \<times> nat) list" where
  "restrict_sizes a ds = filter (\<lambda>(d, n). d \<in> set ds) (sizes a)"

text \<open>The weights get past lines 41 to 47: they have a maximum, and the minimum of the
  normalized weights is not below zero.\<close>

definition passes_negative_check :: "data_array \<Rightarrow> bool" where
  "passes_negative_check w =
     (case array_max w of
        Inl e \<Rightarrow> False
      | Inr m \<Rightarrow>
          (case array_min (array_div w m) of
             Inl e \<Rightarrow> False
           | Inr lo \<Rightarrow> \<not> fless lo (Fin 0)))"

text \<open>No dimension of \<open>a\<close> outside \<open>ds\<close> has size 0, so that index 0 exists along it.\<close>

definition other_dims_nonempty :: "data_array \<Rightarrow> string list \<Rightarrow> bool" where
  "other_dims_nonempty a ds = (\<not> list_ex (\<lambda>(d, n). d \<notin> set ds \<and> n = 0) (sizes a))"

text \<open>No dimension of \<open>a\<close> other than \<open>s\<close> has a name that occurs inside \<open>s\<close>.\<close>

definition no_substring_clash :: "data_array \<Rightarrow> string \<Rightarrow> bool" where
  "no_substring_clash a s = list_all (\<lambda>i. i = s \<or> \<not> str_contains i s) (dims a)"

text \<open>All-ones weights over the dimensions of \<open>a\<close> named in \<open>ds\<close>, with the sizes they
  have in \<open>a\<close>: the explicit counterpart of passing no weights.\<close>

definition ones_over :: "data_array \<Rightarrow> string list \<Rightarrow> data_array" where
  "ones_over a ds =
     \<lparr>dims = map fst (restrict_sizes a ds), shape = map snd (restrict_sizes a ds),
      vals = replicate (prod_list (map snd (restrict_sizes a ds))) (Fin 1)\<rparr>"

section \<open>Properties of the dimension normalizer\<close>

lemma py_range_down:
  "k \<le> n \<Longrightarrow> py_range (- 1 - int k) (- int n - 1) (- 1) = map (\<lambda>j. - 1 - int j) [k..<n]"
proof (induction "n - k" arbitrary: k)
  case 0
  then have "k = n" by simp
  then show ?case by (simp add: py_range.simps)
next
  case (Suc d)
  then have lt: "k < n" by simp
  have next_start: "- 1 - int k + (- 1) = - 1 - int (Suc k)" by simp
  have "py_range (- 1 - int k) (- int n - 1) (- 1)
      = (- 1 - int k) # py_range (- 1 - int k + (- 1)) (- int n - 1) (- 1)"
    using lt by (subst py_range.simps) simp
  then have step: "py_range (- 1 - int k) (- int n - 1) (- 1)
      = (- 1 - int k) # py_range (- 1 - int (Suc k)) (- int n - 1) (- 1)"
    by (simp only: next_start)
  have "py_range (- 1 - int (Suc k)) (- int n - 1) (- 1) = map (\<lambda>j. - 1 - int j) [Suc k..<n]"
    using Suc lt by (intro Suc.hyps(1)) simp_all
  with step lt show ?case by (simp only: upt_conv_Cons list.map)
qed

lemma py_range_axis:
  "py_range (- 1) (- int n - 1) (- 1) = map (\<lambda>j. - 1 - int j) [0..<n]"
  using py_range_down [of 0 n] by simp

text \<open>
  C5.  The dimension normalizer wraps a single name into a one-element list and leaves a
  list as it is; the axis tuple it returns is \<open>(-1, -2, ..., -len(dim))\<close>: as long as the
  list of names, with entry \<open>k\<close> (counted from 0) equal to \<open>-(k + 1)\<close>, so the first entry
  is -1.  The function has no failing branch: it returns a pair for every name and every
  list of names.
\<close>

theorem preprocess_dims_axes:
  "preprocess_dims (Str s) = ([s], [- 1])
   \<and> fst (preprocess_dims (Lst ds)) = ds
   \<and> snd (preprocess_dims (Lst ds)) = map (\<lambda>k. - 1 - int k) [0..<length ds]
   \<and> length (snd (preprocess_dims d)) = length (fst (preprocess_dims d))"
proof -
  have one: "py_range (- 1) (- 2) (- 1) = [- 1]"
    using py_range_axis [of 1] by simp
  have "length (snd (preprocess_dims d)) = length (fst (preprocess_dims d))"
    by (cases d) (simp_all add: preprocess_dims_def py_range_axis)
  then show ?thesis
    by (simp add: preprocess_dims_def py_range_axis one)
qed

section \<open>The shared lines of the correlation functions\<close>

lemma pearson_r_stack_inputs:
  "pearson_r apply_ufunc a b d weights =
     (case stack_inputs a b d weights of
        Inl e \<Rightarrow> Inl e
      | Inr (a', b', new_dim, wts) \<Rightarrow>
          Inr (apply_ufunc \<lparr>func = Np_pearson_r, inputs = [a', b', wts],
                 input_core_dims = [[new_dim], [new_dim], [new_dim]],
                 axis = Axis_int (- 1)\<rparr>))"
proof -
  obtain ds ax where d: "preprocess_dims d = (ds, ax)" by (cases "preprocess_dims d")
  show ?thesis
  proof (cases "1 < length ds")
    case True
    then show ?thesis
      by (simp add: pearson_r_def stack_inputs_def d Let_def split: sum.splits option.splits)
  next
    case False
    then show ?thesis
      by (cases ds) (simp_all add: pearson_r_def stack_inputs_def d split: sum.splits)
  qed
qed

lemma pearson_r_p_value_stack_inputs:
  "pearson_r_p_value apply_ufunc a b d weights =
     (case stack_inputs a b d weights of
        Inl e \<Rightarrow> Inl e
      | Inr (a', b', new_dim, wts) \<Rightarrow>
          Inr (apply_ufunc \<lparr>func = Np_pearson_r_p_value, inputs = [a', b', wts],
                 input_core_dims = [[new_dim], [new_dim], [new_dim]],
                 axis = Axis_int (- 1)\<rparr>))"
proof -
  obtain ds ax where d: "preprocess_dims d = (ds, ax)" by (cases "preprocess_dims d")
  show ?thesis
  proof (cases "1 < length ds")
    case True
    then show ?thesis
      by (simp add: pearson_r_p_value_def stack_inputs_def d Let_def split: sum.splits option.splits)
  next
    case False
    then show ?thesis
      by (cases ds) (simp_all add: pearson_r_p_value_def stack_inputs_def d split: sum.splits)
  qed
qed

section \<open>The order of array elements and the reductions\<close>

lemma fless_irrefl: "\<not> fless a a"
  by (cases a) auto

lemma fless_asym: "fless a b \<Longrightarrow> \<not> fless b a"
  by (cases a; cases b) auto

lemma fless_le_trans:
  "a \<noteq> NaN \<Longrightarrow> b \<noteq> NaN \<Longrightarrow> c \<noteq> NaN \<Longrightarrow> \<not> fless a b \<Longrightarrow> \<not> fless b c \<Longrightarrow> \<not> fless a c"
  by (cases a; cases b; cases c) auto

lemma foldl_fmax2_sel: "foldl fmax2 y ys \<in> set (y # ys)"
  by (induction ys arbitrary: y) (auto simp: fmax2_def)

lemma foldl_fmin2_sel: "foldl fmin2 y ys \<in> set (y # ys)"
  by (induction ys arbitrary: y) (auto simp: fmin2_def)

lemma foldl_fmax2_ge_start:
  "y \<noteq> NaN \<Longrightarrow> NaN \<notin> set ys \<Longrightarrow> \<not> fless (foldl fmax2 y ys) y"
proof (induction ys arbitrary: y)
  case Nil
  then show ?case by (simp add: fless_irrefl)
next
  case (Cons z zs)
  let ?m = "fmax2 y z"
  have m: "?m \<noteq> NaN" using Cons.prems by (auto simp: fmax2_def)
  have zs: "NaN \<notin> set zs" using Cons.prems by simp
  have step: "\<not> fless (foldl fmax2 ?m zs) ?m" using Cons.IH [OF m zs] .
  have "foldl fmax2 ?m zs \<in> set (?m # zs)" by (rule foldl_fmax2_sel)
  then have r: "foldl fmax2 ?m zs \<noteq> NaN" using m zs by auto
  have "\<not> fless ?m y" by (auto simp: fmax2_def fless_irrefl dest: fless_asym)
  with step r m Cons.prems(1) show ?case
    using fless_le_trans [of "foldl fmax2 ?m zs" ?m y] by simp
qed

lemma foldl_fmax2_ub:
  "y \<noteq> NaN \<Longrightarrow> NaN \<notin> set ys \<Longrightarrow> v \<in> set (y # ys) \<Longrightarrow> \<not> fless (foldl fmax2 y ys) v"
proof (induction ys arbitrary: y)
  case Nil
  then show ?case by (simp add: fless_irrefl)
next
  case (Cons z zs)
  let ?m = "fmax2 y z"
  have m: "?m \<noteq> NaN" using Cons.prems by (auto simp: fmax2_def)
  have zs: "NaN \<notin> set zs" and z: "z \<noteq> NaN" using Cons.prems by auto
  have "foldl fmax2 ?m zs \<in> set (?m # zs)" by (rule foldl_fmax2_sel)
  then have r: "foldl fmax2 ?m zs \<noteq> NaN" using m zs by auto
  have ge_m: "\<not> fless (foldl fmax2 ?m zs) ?m" by (rule foldl_fmax2_ge_start [OF m zs])
  have my: "\<not> fless ?m y" by (auto simp: fmax2_def fless_irrefl dest: fless_asym)
  have mz: "\<not> fless ?m z" by (auto simp: fmax2_def fless_irrefl)
  consider "v = y" | "v = z" | "v \<in> set zs" using Cons.prems(3) by auto
  then show ?case
  proof cases
    case 1
    then show ?thesis
      using fless_le_trans [OF r m Cons.prems(1) ge_m my] by simp
  next
    case 2
    then show ?thesis
      using fless_le_trans [OF r m z ge_m mz] by simp
  next
    case 3
    then show ?thesis using Cons.IH [OF m zs] by simp
  qed
qed

lemma foldl_fmin2_le_start:
  "y \<noteq> NaN \<Longrightarrow> NaN \<notin> set ys \<Longrightarrow> \<not> fless y (foldl fmin2 y ys)"
proof (induction ys arbitrary: y)
  case Nil
  then show ?case by (simp add: fless_irrefl)
next
  case (Cons z zs)
  let ?m = "fmin2 y z"
  have m: "?m \<noteq> NaN" using Cons.prems by (auto simp: fmin2_def)
  have zs: "NaN \<notin> set zs" using Cons.prems by simp
  have step: "\<not> fless ?m (foldl fmin2 ?m zs)" using Cons.IH [OF m zs] .
  have "foldl fmin2 ?m zs \<in> set (?m # zs)" by (rule foldl_fmin2_sel)
  then have r: "foldl fmin2 ?m zs \<noteq> NaN" using m zs by auto
  have "\<not> fless y ?m" by (auto simp: fmin2_def fless_irrefl dest: fless_asym)
  then show ?case
    using fless_le_trans [OF Cons.prems(1) m r _ step] by simp
qed

lemma foldl_fmin2_lb:
  "y \<noteq> NaN \<Longrightarrow> NaN \<notin> set ys \<Longrightarrow> v \<in> set (y # ys) \<Longrightarrow> \<not> fless v (foldl fmin2 y ys)"
proof (induction ys arbitrary: y)
  case Nil
  then show ?case by (simp add: fless_irrefl)
next
  case (Cons z zs)
  let ?m = "fmin2 y z"
  have m: "?m \<noteq> NaN" using Cons.prems by (auto simp: fmin2_def)
  have zs: "NaN \<notin> set zs" and z: "z \<noteq> NaN" using Cons.prems by auto
  have "foldl fmin2 ?m zs \<in> set (?m # zs)" by (rule foldl_fmin2_sel)
  then have r: "foldl fmin2 ?m zs \<noteq> NaN" using m zs by auto
  have le_m: "\<not> fless ?m (foldl fmin2 ?m zs)" by (rule foldl_fmin2_le_start [OF m zs])
  have my: "\<not> fless y ?m" by (auto simp: fmin2_def fless_irrefl dest: fless_asym)
  have mz: "\<not> fless z ?m" by (auto simp: fmin2_def fless_irrefl)
  consider "v = y" | "v = z" | "v \<in> set zs" using Cons.prems(3) by auto
  then show ?case
  proof cases
    case 1
    then show ?thesis
      using fless_le_trans [OF Cons.prems(1) m r my le_m] by simp
  next
    case 2
    then show ?thesis
      using fless_le_trans [OF z m r mz le_m] by simp
  next
    case 3
    then show ?thesis using Cons.IH [OF m zs] by simp
  qed
qed

lemma nanreduce_sel:
  assumes "v \<in> set xs" "v \<noteq> NaN" and f: "\<And>y ys. foldl f y ys \<in> set (y # ys)"
  shows "nanreduce f xs \<in> set xs \<and> nanreduce f xs \<noteq> NaN"
proof -
  let ?ys = "filter (\<lambda>v. v \<noteq> NaN) xs"
  from assms have "v \<in> set ?ys" by simp
  then obtain y ys where eq: "?ys = y # ys" by (cases ?ys) auto
  have "foldl f y ys \<in> set ?ys" using f [of y ys] by (simp only: eq)
  then have "foldl f y ys \<in> set xs \<and> foldl f y ys \<noteq> NaN" by simp
  then show ?thesis by (simp add: nanreduce_def eq)
qed

lemma nanmax_ub:
  assumes "v \<in> set xs" "v \<noteq> NaN"
  shows "\<not> fless (nanreduce fmax2 xs) v"
proof -
  let ?ys = "filter (\<lambda>v. v \<noteq> NaN) xs"
  from assms have v: "v \<in> set ?ys" by simp
  then obtain y ys where eq: "?ys = y # ys" by (cases ?ys) auto
  have "\<forall>u\<in>set ?ys. u \<noteq> NaN" by simp
  then have "y \<noteq> NaN" "NaN \<notin> set ys" unfolding eq by auto
  then have "\<not> fless (foldl fmax2 y ys) v" using v unfolding eq by (rule foldl_fmax2_ub)
  then show ?thesis by (simp add: nanreduce_def eq)
qed

lemma nanmin_lb:
  assumes "v \<in> set xs" "v \<noteq> NaN"
  shows "\<not> fless v (nanreduce fmin2 xs)"
proof -
  let ?ys = "filter (\<lambda>v. v \<noteq> NaN) xs"
  from assms have v: "v \<in> set ?ys" by simp
  then obtain y ys where eq: "?ys = y # ys" by (cases ?ys) auto
  have "\<forall>u\<in>set ?ys. u \<noteq> NaN" by simp
  then have "y \<noteq> NaN" "NaN \<notin> set ys" unfolding eq by auto
  then have "\<not> fless v (foldl fmin2 y ys)" using v unfolding eq by (rule foldl_fmin2_lb)
  then show ?thesis by (simp add: nanreduce_def eq)
qed

lemma nanreduce_mem:
  assumes "nanreduce f xs \<noteq> NaN" and f: "\<And>y ys. foldl f y ys \<in> set (y # ys)"
  shows "nanreduce f xs \<in> set xs"
proof (cases "filter (\<lambda>v. v \<noteq> NaN) xs")
  case Nil
  with assms(1) show ?thesis by (simp add: nanreduce_def)
next
  case (Cons y ys)
  have "foldl f y ys \<in> set (filter (\<lambda>v. v \<noteq> NaN) xs)" using f [of y ys] by (simp only: Cons)
  then have "foldl f y ys \<in> set xs" by simp
  then show ?thesis by (simp add: nanreduce_def Cons)
qed

section \<open>The weight preprocessor: the negative-weight check\<close>

lemma vals_array_div [simp]: "vals (array_div w m) = map (\<lambda>v. fdiv v m) (vals w)"
  by (simp add: array_div_def)

lemma sizes_array_div [simp]: "sizes (array_div w m) = sizes w"
  by (simp add: array_div_def sizes_def)

lemma dims_array_div [simp]: "dims (array_div w m) = dims w"
  by (simp add: array_div_def)

lemma negative_msg_neq_mismatch [simp]: "negative_msg \<noteq> mismatch_msg ds wsz asz"
  by (simp add: negative_msg_def mismatch_msg_def)

lemma negative_msg_neq_mismatch' [simp]: "mismatch_msg ds wsz asz \<noteq> negative_msg"
  by (simp add: negative_msg_def mismatch_msg_def)

lemma isel0_error: "isel0 a ks = Inl e \<Longrightarrow> e = EngineError Index_out_of_bounds"
  by (auto simp: isel0_def split: if_splits)

lemma broadcast_error: "broadcast a w = Inl e \<Longrightarrow> e = EngineError Conflicting_sizes"
  by (auto simp: broadcast_def Let_def split: if_splits)

lemma preprocess_weights_Some:
  "preprocess_weights a ds nd (Some w) =
     (if vals w = [] then Inl (EngineError Empty_reduction)
      else let w1 = array_div w (nanreduce fmax2 (vals w)) in
        if fless (nanreduce fmin2 (vals w1)) (Fin 0) then Inl (ValueError negative_msg)
        else (case isel0 a (filter (\<lambda>i. \<not> py_in i nd) (dims a)) of
                Inl e \<Rightarrow> Inl e
              | Inr a0 \<Rightarrow>
                  if \<not> dict_eq (sizes w) (sizes a0)
                  then Inl (ValueError (mismatch_msg ds (sizes w) (sizes a0)))
                  else if \<not> dict_eq (sizes w) (sizes a)
                  then (case broadcast a w1 of Inl e \<Rightarrow> Inl e | Inr (_, w2) \<Rightarrow> Inr w2)
                  else Inr w1))"
  by (simp add: preprocess_weights_def array_max_def array_min_def Let_def
      cong: sum.case_cong if_cong)

lemma preprocess_weights_negative_iff:
  "preprocess_weights a ds nd (Some w) = Inl (ValueError negative_msg) \<longleftrightarrow>
     vals w \<noteq> [] \<and>
     fless (nanreduce fmin2 (map (\<lambda>v. fdiv v (nanreduce fmax2 (vals w))) (vals w))) (Fin 0)"
  by (auto simp: preprocess_weights_Some Let_def
      split: sum.splits if_splits prod.splits dest: isel0_error broadcast_error)


lemma nanreduce_not_NaN:
  assumes "v \<in> set xs" "v \<noteq> NaN" and f: "\<And>y ys. foldl f y ys \<in> set (y # ys)"
  shows "nanreduce f xs \<noteq> NaN"
  using nanreduce_sel [OF assms] by simp

lemma nanmax_mem: "nanreduce fmax2 xs \<noteq> NaN \<Longrightarrow> nanreduce fmax2 xs \<in> set xs"
  by (erule nanreduce_mem) (rule foldl_fmax2_sel)

lemma nanmin_mem: "nanreduce fmin2 xs \<noteq> NaN \<Longrightarrow> nanreduce fmin2 xs \<in> set xs"
  by (erule nanreduce_mem) (rule foldl_fmin2_sel)

lemma nanmax_not_NaN: "v \<in> set xs \<Longrightarrow> v \<noteq> NaN \<Longrightarrow> nanreduce fmax2 xs \<noteq> NaN"
  by (erule nanreduce_not_NaN, assumption) (rule foldl_fmax2_sel)

lemma nanmin_not_NaN: "v \<in> set xs \<Longrightarrow> v \<noteq> NaN \<Longrightarrow> nanreduce fmin2 xs \<noteq> NaN"
  by (erule nanreduce_not_NaN, assumption) (rule foldl_fmin2_sel)

lemma array_max_Inr: "array_max w = Inr m \<longleftrightarrow> vals w \<noteq> [] \<and> m = nanreduce fmax2 (vals w)"
  by (auto simp: array_max_def)

lemma array_min_Inr: "array_min w = Inr m \<longleftrightarrow> vals w \<noteq> [] \<and> m = nanreduce fmin2 (vals w)"
  by (auto simp: array_min_def)

lemma underflow_at_pos: "0 < underflow_at"
  by (simp add: underflow_at_def)

lemma underflow_at_small: "underflow_at < 1 / 4"
  by (simp add: underflow_at_def)

lemma overflow_at_large: "4 < overflow_at"
  by (simp add: overflow_at_def)

lemma round_quot_mid [simp]: "1 / 4 \<le> \<bar>q\<bar> \<Longrightarrow> \<bar>q\<bar> \<le> 4 \<Longrightarrow> round_quot q = Fin q"
  using underflow_at_small overflow_at_large by (simp add: round_quot_def)

lemma round_quot_pos:
  "0 < q \<Longrightarrow> round_quot q = PInf \<or> round_quot q = Fin 0 \<or> round_quot q = Fin q"
  by (simp add: round_quot_def signed_inf_def signed_zero_def)

lemma round_quot_neg:
  "q < 0 \<Longrightarrow> round_quot q = NInf \<or> round_quot q = NZero \<or> round_quot q = Fin q"
  by (simp add: round_quot_def signed_inf_def signed_zero_def)

lemma round_quot_neg_large:
  "q < 0 \<Longrightarrow> underflow_at < - q \<Longrightarrow> round_quot q = NInf \<or> round_quot q = Fin q"
  by (simp add: round_quot_def signed_inf_def signed_zero_def)

lemma round_quot_unit:
  "0 < q \<Longrightarrow> q \<le> 1 \<Longrightarrow> round_quot q = Fin 0 \<or> round_quot q = Fin q"
  using overflow_at_large by (simp add: round_quot_def signed_inf_def signed_zero_def)

lemma preprocess_weights_size_check:
  assumes "vals w \<noteq> []"
    and "\<not> fless (nanreduce fmin2 (vals (array_div w (nanreduce fmax2 (vals w))))) (Fin 0)"
  shows "preprocess_weights a ds nd (Some w)
    = size_check a ds nd (array_div w (nanreduce fmax2 (vals w)))"
  using assms
  by (simp add: preprocess_weights_def size_check_def array_max_def array_min_def Let_def)

lemma foldl_nanreduce_const:
  assumes "v \<in> set xs" "\<forall>u\<in>set xs. u = v" "v \<noteq> NaN"
    and f: "\<And>y ys. foldl f y ys \<in> set (y # ys)"
  shows "nanreduce f xs = v"
  using nanreduce_sel [OF assms(1,3) f] assms(2) by auto

lemma max_zero_entries:
  assumes "array_max w = Inr (Fin 0)" "NZero \<notin> set (vals w)" "v \<in> set (vals w)"
  shows "v = NaN \<or> v = NInf \<or> (\<exists>x\<le>0. v = Fin x)"
proof (cases "v = NaN")
  case False
  from assms(1) have "nanreduce fmax2 (vals w) = Fin 0" by (simp add: array_max_Inr)
  with nanmax_ub [OF assms(3) False] have "\<not> fless (Fin 0) v" by simp
  with assms(2,3) show ?thesis by (cases v) auto
qed simp

lemma fdiv_pos_zero:
  "v = NaN \<or> v = NInf \<or> (\<exists>x\<le>0. v = Fin x) \<Longrightarrow>
     (fdiv v (Fin 0) = NaN \<or> fdiv v (Fin 0) = NInf)
     \<and> (fdiv v (Fin 0) = NInf \<longleftrightarrow> v = NInf \<or> (\<exists>x<0. v = Fin x))"
  by (cases v) (auto simp: signed_inf_def)

lemma max_zero_normalized:
  assumes mx: "array_max w = Inr (Fin 0)" and nz: "NZero \<notin> set (vals w)"
  shows "NaN \<in> set (vals (array_div w (Fin 0)))"
    and "\<forall>v\<in>set (vals (array_div w (Fin 0))). v = NaN \<or> v = NInf"
    and "preprocess_weights a ds nd (Some w) =
          (if NInf \<in> set (vals w) \<or> (\<exists>x<0. Fin x \<in> set (vals w))
           then Inl (ValueError negative_msg)
           else size_check a ds nd (array_div w (Fin 0)))"
proof -
  from mx have ne: "vals w \<noteq> []" and m: "nanreduce fmax2 (vals w) = Fin 0"
    by (simp_all add: array_max_Inr)
  have "nanreduce fmax2 (vals w) \<in> set (vals w)"
    by (rule nanmax_mem) (simp add: m)
  then have zero: "Fin 0 \<in> set (vals w)" by (simp add: m)
  have "fdiv (Fin 0) (Fin 0) \<in> set (vals (array_div w (Fin 0)))"
    using zero by (auto simp only: vals_array_div set_map intro: imageI)
  then show "NaN \<in> set (vals (array_div w (Fin 0)))" by simp
  show all: "\<forall>v\<in>set (vals (array_div w (Fin 0))). v = NaN \<or> v = NInf"
    using max_zero_entries [OF mx nz] fdiv_pos_zero by auto
  let ?n = "map (\<lambda>v. fdiv v (Fin 0)) (vals w)"
  have "fless (nanreduce fmin2 ?n) (Fin 0) \<longleftrightarrow> NInf \<in> set ?n"
  proof
    assume neg: "fless (nanreduce fmin2 ?n) (Fin 0)"
    then have nn: "nanreduce fmin2 ?n \<noteq> NaN" by auto
    then have mem: "nanreduce fmin2 ?n \<in> set ?n"
      by (rule nanmin_mem)
    with all nn have "nanreduce fmin2 ?n = NInf" by auto
    with mem show "NInf \<in> set ?n" by simp
  next
    assume mem: "NInf \<in> set ?n"
    have nn: "nanreduce fmin2 ?n \<noteq> NaN"
      by (rule nanmin_not_NaN [OF mem]) simp
    have "\<not> fless NInf (nanreduce fmin2 ?n)" by (rule nanmin_lb [OF mem]) simp
    with nn have "nanreduce fmin2 ?n = NInf" by (cases "nanreduce fmin2 ?n") auto
    then show "fless (nanreduce fmin2 ?n) (Fin 0)" by simp
  qed
  also have "\<dots> \<longleftrightarrow> (\<exists>v\<in>set (vals w). fdiv v (Fin 0) = NInf)"
    by (simp only: set_map image_iff) metis
  also have "\<dots> \<longleftrightarrow> (\<exists>v\<in>set (vals w). v = NInf \<or> (\<exists>x<0. v = Fin x))"
    using max_zero_entries [OF mx nz] fdiv_pos_zero by (intro bex_cong refl) blast
  also have "\<dots> \<longleftrightarrow> NInf \<in> set (vals w) \<or> (\<exists>x<0. Fin x \<in> set (vals w))" by auto
  finally have iff: "fless (nanreduce fmin2 ?n) (Fin 0)
      \<longleftrightarrow> NInf \<in> set (vals w) \<or> (\<exists>x<0. Fin x \<in> set (vals w))" .
  show "preprocess_weights a ds nd (Some w) =
          (if NInf \<in> set (vals w) \<or> (\<exists>x<0. Fin x \<in> set (vals w))
           then Inl (ValueError negative_msg)
           else size_check a ds nd (array_div w (Fin 0)))"
  proof (cases "NInf \<in> set (vals w) \<or> (\<exists>x<0. Fin x \<in> set (vals w))")
    case True
    with iff have "preprocess_weights a ds nd (Some w) = Inl (ValueError negative_msg)"
      by (simp add: preprocess_weights_negative_iff ne m)
    with True show ?thesis by simp
  next
    case False
    with iff have "\<not> fless (nanreduce fmin2 (vals (array_div w (nanreduce fmax2 (vals w))))) (Fin 0)"
      by (simp add: m)
    from preprocess_weights_size_check [OF ne this, of a ds nd]
    have r: "preprocess_weights a ds nd (Some w) = size_check a ds nd (array_div w (Fin 0))"
      by (simp add: m)
    from False have c: "(NInf \<in> set (vals w) \<or> (\<exists>x<0. Fin x \<in> set (vals w))) = False"
      by simp
    show ?thesis by (simp only: c if_False r)
  qed
qed

lemma max_neg_zero_entries:
  assumes "array_max w = Inr NZero" "Fin 0 \<notin> set (vals w)" "v \<in> set (vals w)"
  shows "v = NaN \<or> v = NInf \<or> v = NZero \<or> (\<exists>x<0. v = Fin x)"
proof (cases "v = NaN")
  case False
  from assms(1) have "nanreduce fmax2 (vals w) = NZero" by (simp add: array_max_Inr)
  with nanmax_ub [OF assms(3) False] have "\<not> fless NZero v" by simp
  with assms(2,3) show ?thesis by (cases v) (auto simp: less_le)
qed simp

lemma fdiv_neg_zero:
  "v = NaN \<or> v = NInf \<or> v = NZero \<or> (\<exists>x<0. v = Fin x) \<Longrightarrow>
     fdiv v NZero = NaN \<or> fdiv v NZero = PInf"
  by (cases v) (auto simp: signed_inf_def)

lemma max_neg_zero_normalized:
  assumes mx: "array_max w = Inr NZero" and pz: "Fin 0 \<notin> set (vals w)"
  shows "NaN \<in> set (vals (array_div w NZero))"
    and "\<forall>v\<in>set (vals (array_div w NZero)). v = NaN \<or> v = PInf"
    and "preprocess_weights a ds nd (Some w) = size_check a ds nd (array_div w NZero)"
proof -
  from mx have ne: "vals w \<noteq> []" and m: "nanreduce fmax2 (vals w) = NZero"
    by (simp_all add: array_max_Inr)
  have "nanreduce fmax2 (vals w) \<in> set (vals w)"
    by (rule nanmax_mem) (simp add: m)
  then have zero: "NZero \<in> set (vals w)" by (simp add: m)
  have "fdiv NZero NZero \<in> set (vals (array_div w NZero))"
    using zero by (auto simp only: vals_array_div set_map intro: imageI)
  then show "NaN \<in> set (vals (array_div w NZero))" by simp
  show all: "\<forall>v\<in>set (vals (array_div w NZero)). v = NaN \<or> v = PInf"
    using max_neg_zero_entries [OF mx pz] fdiv_neg_zero by auto
  let ?n = "vals (array_div w NZero)"
  have "\<not> fless (nanreduce fmin2 ?n) (Fin 0)"
  proof
    assume neg: "fless (nanreduce fmin2 ?n) (Fin 0)"
    then have nn: "nanreduce fmin2 ?n \<noteq> NaN" by auto
    then have "nanreduce fmin2 ?n \<in> set ?n" by (rule nanmin_mem)
    with all nn have "nanreduce fmin2 ?n = PInf" by auto
    with neg show False by simp
  qed
  then have "\<not> fless (nanreduce fmin2 (vals (array_div w (nanreduce fmax2 (vals w))))) (Fin 0)"
    by (simp add: m)
  from preprocess_weights_size_check [OF ne this]
  show "preprocess_weights a ds nd (Some w) = size_check a ds nd (array_div w NZero)"
    by (simp add: m)
qed

lemma all_zero_normalized:
  assumes ne: "vals w \<noteq> []" and z: "\<forall>v\<in>set (vals w). v = Fin 0"
  shows "array_max w = Inr (Fin 0)"
    and "array_div w (Fin 0) = w\<lparr>vals := replicate (length (vals w)) NaN\<rparr>"
proof -
  from ne obtain v where v: "v \<in> set (vals w)" by (cases "vals w") auto
  with z have v0: "Fin 0 \<in> set (vals w)" by auto
  have "nanreduce fmax2 (vals w) = Fin 0"
    by (rule foldl_nanreduce_const [OF v0 z]) (simp, rule foldl_fmax2_sel)
  with ne show "array_max w = Inr (Fin 0)" by (simp add: array_max_Inr)
  have "map (\<lambda>v. fdiv v (Fin 0)) (vals w) = map (\<lambda>v. NaN) (vals w)"
    using z by (intro map_cong refl) auto
  then show "array_div w (Fin 0) = w\<lparr>vals := replicate (length (vals w)) NaN\<rparr>"
    by (simp add: array_div_def map_replicate_const)
qed

lemma all_negative_normalized:
  assumes ne: "vals w \<noteq> []" and neg: "\<forall>v\<in>set (vals w). \<exists>x<0. v = Fin x"
  shows "\<exists>m<0. array_max w = Inr (Fin m) \<and> Fin m \<in> set (vals w)
           \<and> (\<forall>v\<in>set (vals (array_div w (Fin m))). positive_sign v)
           \<and> Fin 1 \<in> set (vals (array_div w (Fin m)))
           \<and> preprocess_weights a ds nd (Some w) = size_check a ds nd (array_div w (Fin m))"
proof -
  from ne obtain v where v: "v \<in> set (vals w)" by (cases "vals w") auto
  with neg have vn: "v \<noteq> NaN" by auto
  have mem: "nanreduce fmax2 (vals w) \<in> set (vals w)"
    by (rule nanmax_mem [OF nanmax_not_NaN [OF v vn]])
  with neg obtain m where m: "nanreduce fmax2 (vals w) = Fin m" "m < 0" by auto
  let ?n = "map (\<lambda>v. fdiv v (Fin m)) (vals w)"
  have pos: "\<forall>u\<in>set ?n. positive_sign u"
  proof
    fix u assume "u \<in> set ?n"
    then obtain x where x: "Fin x \<in> set (vals w)" "x < 0" "u = fdiv (Fin x) (Fin m)"
      using neg by auto
    from x(2) m(2) have "0 < x / m" by (simp add: divide_neg_neg)
    from round_quot_pos [OF this] this x m(2) show "positive_sign u"
      by (auto simp: positive_sign_def)
  qed
  from mem m(1) have mm: "Fin m \<in> set (vals w)" by simp
  then have "fdiv (Fin m) (Fin m) \<in> set ?n" by (auto simp only: set_map intro: imageI)
  then have one: "Fin 1 \<in> set ?n" using m(2) by simp
  have nn: "nanreduce fmin2 ?n \<noteq> NaN" by (rule nanmin_not_NaN [OF one]) simp
  then have "nanreduce fmin2 ?n \<in> set ?n" by (rule nanmin_mem)
  with pos have "positive_sign (nanreduce fmin2 ?n)" by blast
  then have "\<not> fless (nanreduce fmin2 ?n) (Fin 0)"
    by (cases "nanreduce fmin2 ?n") (auto simp: positive_sign_def)
  then have "\<not> fless (nanreduce fmin2 (vals (array_div w (nanreduce fmax2 (vals w))))) (Fin 0)"
    by (simp add: m)
  from preprocess_weights_size_check [OF ne this]
  have "preprocess_weights a ds nd (Some w) = size_check a ds nd (array_div w (Fin m))"
    by (simp add: m)
  with m pos one mm ne show ?thesis
    by (intro exI [of _ m]) (simp add: array_max_Inr)
qed

lemma accepted_no_negative:
  assumes acc: "preprocess_weights a ds nd (Some w) = Inr w'"
    and v: "v \<in> set (vals (array_div w (nanreduce fmax2 (vals w))))"
  shows "\<not> fless v (Fin 0)"
proof
  assume neg: "fless v (Fin 0)"
  let ?n = "map (\<lambda>v. fdiv v (nanreduce fmax2 (vals w))) (vals w)"
  from v have mem: "v \<in> set ?n" by simp
  from neg have vn: "v \<noteq> NaN" by auto
  have nn: "nanreduce fmin2 ?n \<noteq> NaN" by (rule nanmin_not_NaN [OF mem vn])
  have lb: "\<not> fless v (nanreduce fmin2 ?n)" by (rule nanmin_lb [OF mem vn])
  from neg nn lb have "fless (nanreduce fmin2 ?n) (Fin 0)"
    by (cases v; cases "nanreduce fmin2 ?n") auto
  moreover from v have "vals w \<noteq> []" by auto
  ultimately have "preprocess_weights a ds nd (Some w) = Inl (ValueError negative_msg)"
    by (simp add: preprocess_weights_negative_iff)
  with acc show False by simp
qed

lemma negative_entry_rejected:
  assumes mx: "array_max w = Inr (Fin m)" and m: "0 < m"
    and x: "Fin x \<in> set (vals w)" "x < 0" and big: "underflow_at < - x / m"
  shows "preprocess_weights a ds nd (Some w) = Inl (ValueError negative_msg)"
proof (rule ccontr)
  assume "preprocess_weights a ds nd (Some w) \<noteq> Inl (ValueError negative_msg)"
  from mx have ne: "vals w \<noteq> []" and mm: "nanreduce fmax2 (vals w) = Fin m"
    by (simp_all add: array_max_Inr)
  let ?n = "map (\<lambda>v. fdiv v (Fin m)) (vals w)"
  have q: "x / m < 0" using m x(2) by (simp add: divide_neg_pos)
  have "fdiv (Fin x) (Fin m) \<in> set ?n" using x(1) by (auto simp only: set_map intro: imageI)
  then have mem: "round_quot (x / m) \<in> set ?n" using m x(2) by simp
  from round_quot_neg_large [OF q] big q
  have neg: "fless (round_quot (x / m)) (Fin 0)" by auto
  then have vn: "round_quot (x / m) \<noteq> NaN" by auto
  have nn: "nanreduce fmin2 ?n \<noteq> NaN" by (rule nanmin_not_NaN [OF mem vn])
  have lb: "\<not> fless (round_quot (x / m)) (nanreduce fmin2 ?n)" by (rule nanmin_lb [OF mem vn])
  from neg nn lb have "fless (nanreduce fmin2 ?n) (Fin 0)"
    by (cases "round_quot (x / m)"; cases "nanreduce fmin2 ?n") auto
  then have "preprocess_weights a ds nd (Some w) = Inl (ValueError negative_msg)"
    by (simp add: preprocess_weights_negative_iff ne mm)
  with \<open>preprocess_weights a ds nd (Some w) \<noteq> Inl (ValueError negative_msg)\<close>
  show False by simp
qed

lemma accepted_normalized_in_unit_interval:
  assumes mx: "array_max w = Inr (Fin m)" and m: "0 < m"
    and acc: "preprocess_weights a ds nd (Some w) = Inr w'"
    and v: "v \<in> set (vals (array_div w (Fin m)))"
  shows "v = NaN \<or> in_unit_interval v"
proof -
  from mx have ne: "vals w \<noteq> []" and mm: "nanreduce fmax2 (vals w) = Fin m"
    by (simp_all add: array_max_Inr)
  from v have nonneg: "\<not> fless v (Fin 0)"
    using accepted_no_negative [OF acc, of v] by (simp add: mm)
  from v obtain u where u: "u \<in> set (vals w)" "v = fdiv u (Fin m)" by auto
  show ?thesis
  proof (cases u)
    case NaN
    with u show ?thesis by simp
  next
    case NInf
    with u m nonneg show ?thesis by (simp add: signed_inf_def)
  next
    case NZero
    with u m show ?thesis by (simp add: signed_zero_def in_unit_interval_def)
  next
    case (Fin x)
    have "\<not> fless (Fin m) u" using nanmax_ub [OF u(1)] Fin mm by simp
    with Fin have le: "x \<le> m" by simp
    consider "x = 0" | "0 < x" | "x < 0" by linarith
    then show ?thesis
    proof cases
      case 1
      with Fin u m show ?thesis by (simp add: signed_zero_def in_unit_interval_def)
    next
      case 2
      with le m have q: "0 < x / m" "x / m \<le> 1" by simp_all
      from round_quot_unit [OF q] q Fin u 2 m show ?thesis
        by (auto simp: in_unit_interval_def)
    next
      case 3
      with m have q: "x / m < 0" by (simp add: divide_neg_pos)
      from round_quot_neg [OF q] q Fin u 3 m nonneg show ?thesis
        by (auto simp: in_unit_interval_def)
    qed
  next
    case PInf
    have "\<not> fless (Fin m) u" using nanmax_ub [OF u(1)] PInf mm by simp
    with PInf show ?thesis by simp
  qed
qed

text \<open>
  C9, as stated, fails where it says that a zero maximum yields not-a-number values
  rather than a validation error: the weights \<open>[0, -1]\<close> have the maximum 0, are
  normalized to not-a-number and minus infinity, and the negative-weight error is raised,
  by the weight preprocessor and by each of the five metric functions.
\<close>

theorem zero_maximum_sign_error_raised:
  "array_max (series ''time'' [0, - 1]) = Inr (Fin 0)
   \<and> vals (array_div (series ''time'' [0, - 1]) (Fin 0)) = [NaN, NInf]
   \<and> preprocess_weights (series ''time'' [3, 5]) [''time''] (Str ''time'')
        (Some (series ''time'' [0, - 1])) = Inl (ValueError negative_msg)
   \<and> pearson_r (\<lambda>c. c) (series ''time'' [3, 5]) (series ''time'' [4, 6]) (Str ''time'')
        (Some (series ''time'' [0, - 1])) = Inl (ValueError negative_msg)
   \<and> pearson_r_p_value (\<lambda>c. c) (series ''time'' [3, 5]) (series ''time'' [4, 6]) (Str ''time'')
        (Some (series ''time'' [0, - 1])) = Inl (ValueError negative_msg)
   \<and> rmse (\<lambda>c. c) (series ''time'' [3, 5]) (series ''time'' [4, 6]) (Str ''time'')
        (Some (series ''time'' [0, - 1])) = Inl (ValueError negative_msg)
   \<and> mse (\<lambda>c. c) (series ''time'' [3, 5]) (series ''time'' [4, 6]) (Str ''time'')
        (Some (series ''time'' [0, - 1])) = Inl (ValueError negative_msg)
   \<and> mae (\<lambda>c. c) (series ''time'' [3, 5]) (series ''time'' [4, 6]) (Str ''time'')
        (Some (series ''time'' [0, - 1])) = Inl (ValueError negative_msg)"
  by (simp add: pearson_r_stack_inputs pearson_r_p_value_stack_inputs rmse_def mse_def mae_def
      stack_inputs_def preprocess_dims_def py_range.simps array_max_def
      preprocess_weights_Some series_def nanreduce_def fmax2_def fmin2_def Let_def
      array_div_def signed_inf_def)

text \<open>
  C9, amended.  The normalization divides by the maximum whatever its value, and what
  the division yields is what the sign check reads and what goes on to the size check.
  When the maximum is \<open>+0.0\<close> and no weight is \<open>-0.0\<close>, the normalized weights are
  not-a-number where the weight was zero and minus infinity where it was negative; the
  negative-weight error is raised exactly when some weight is negative, and otherwise the
  not-a-number weights go on to the size check, so that an all-zero array is not rejected
  for its maximum.
  When the maximum is \<open>-0.0\<close> and no weight is \<open>+0.0\<close>, the normalized weights are
  not-a-number and plus infinity only, and the negative-weight error is never raised.
  When every weight is a negative number, the maximum is one of them, the weight equal
  to it is normalized to 1, every normalized weight has a positive sign (a positive
  number, \<open>+0.0\<close> on underflow, plus infinity on overflow), the negative-weight error is
  not raised, and the sign-flipped weights go on to the size check.
\<close>

theorem normalization_unguarded:
  "(array_max w = Inr (Fin 0) \<and> NZero \<notin> set (vals w) \<longrightarrow>
        NaN \<in> set (vals (array_div w (Fin 0)))
      \<and> (\<forall>v\<in>set (vals (array_div w (Fin 0))). v = NaN \<or> v = NInf)
      \<and> preprocess_weights a ds nd (Some w) =
          (if NInf \<in> set (vals w) \<or> (\<exists>x<0. Fin x \<in> set (vals w))
           then Inl (ValueError negative_msg)
           else size_check a ds nd (array_div w (Fin 0))))
   \<and> (vals w \<noteq> [] \<and> (\<forall>v\<in>set (vals w). v = Fin 0) \<longrightarrow>
        preprocess_weights a ds nd (Some w)
          = size_check a ds nd (w\<lparr>vals := replicate (length (vals w)) NaN\<rparr>))
   \<and> (array_max w = Inr NZero \<and> Fin 0 \<notin> set (vals w) \<longrightarrow>
        NaN \<in> set (vals (array_div w NZero))
      \<and> (\<forall>v\<in>set (vals (array_div w NZero)). v = NaN \<or> v = PInf)
      \<and> preprocess_weights a ds nd (Some w) = size_check a ds nd (array_div w NZero))
   \<and> (vals w \<noteq> [] \<and> (\<forall>v\<in>set (vals w). \<exists>x<0. v = Fin x) \<longrightarrow>
        (\<exists>m<0. array_max w = Inr (Fin m) \<and> Fin m \<in> set (vals w)
           \<and> (\<forall>v\<in>set (vals (array_div w (Fin m))). positive_sign v)
           \<and> Fin 1 \<in> set (vals (array_div w (Fin m)))
           \<and> preprocess_weights a ds nd (Some w) = size_check a ds nd (array_div w (Fin m))))"
proof (intro conjI impI)
  assume h: "array_max w = Inr (Fin 0) \<and> NZero \<notin> set (vals w)"
  then have mx: "array_max w = Inr (Fin 0)" and nz: "NZero \<notin> set (vals w)" by simp_all
  show "NaN \<in> set (vals (array_div w (Fin 0)))" by (rule max_zero_normalized(1) [OF mx nz])
  show "\<forall>v\<in>set (vals (array_div w (Fin 0))). v = NaN \<or> v = NInf"
    by (rule max_zero_normalized(2) [OF mx nz])
  show "preprocess_weights a ds nd (Some w) =
          (if NInf \<in> set (vals w) \<or> (\<exists>x<0. Fin x \<in> set (vals w))
           then Inl (ValueError negative_msg)
           else size_check a ds nd (array_div w (Fin 0)))"
    by (rule max_zero_normalized(3) [OF mx nz])
next
  assume h: "vals w \<noteq> [] \<and> (\<forall>v\<in>set (vals w). v = Fin 0)"
  then have ne: "vals w \<noteq> []" and z: "\<forall>v\<in>set (vals w). v = Fin 0" by simp_all
  have mx: "array_max w = Inr (Fin 0)" by (rule all_zero_normalized(1) [OF ne z])
  have nz: "NZero \<notin> set (vals w)" using z by auto
  have none: "\<not> (NInf \<in> set (vals w) \<or> (\<exists>x<0. Fin x \<in> set (vals w)))" using z by auto
  show "preprocess_weights a ds nd (Some w)
          = size_check a ds nd (w\<lparr>vals := replicate (length (vals w)) NaN\<rparr>)"
    using max_zero_normalized(3) [OF mx nz, of a ds nd] none
    by (simp only: if_False all_zero_normalized(2) [OF ne z])
next
  assume h: "array_max w = Inr NZero \<and> Fin 0 \<notin> set (vals w)"
  then have mx: "array_max w = Inr NZero" and pz: "Fin 0 \<notin> set (vals w)" by simp_all
  show "NaN \<in> set (vals (array_div w NZero))" by (rule max_neg_zero_normalized(1) [OF mx pz])
  show "\<forall>v\<in>set (vals (array_div w NZero)). v = NaN \<or> v = PInf"
    by (rule max_neg_zero_normalized(2) [OF mx pz])
  show "preprocess_weights a ds nd (Some w) = size_check a ds nd (array_div w NZero)"
    by (rule max_neg_zero_normalized(3) [OF mx pz])
next
  assume h: "vals w \<noteq> [] \<and> (\<forall>v\<in>set (vals w). \<exists>x<0. v = Fin x)"
  then have ne: "vals w \<noteq> []" and neg: "\<forall>v\<in>set (vals w). \<exists>x<0. v = Fin x" by simp_all
  show "\<exists>m<0. array_max w = Inr (Fin m) \<and> Fin m \<in> set (vals w)
           \<and> (\<forall>v\<in>set (vals (array_div w (Fin m))). positive_sign v)
           \<and> Fin 1 \<in> set (vals (array_div w (Fin m)))
           \<and> preprocess_weights a ds nd (Some w) = size_check a ds nd (array_div w (Fin m))"
    by (rule all_negative_normalized [OF ne neg])
qed

theorem normalization_unguarded_witness:
  "array_max (series ''time'' [0, 0]) = Inr (Fin 0)
   \<and> preprocess_weights (series ''time'' [3, 5]) [''time''] (Str ''time'')
        (Some (series ''time'' [0, 0]))
      = Inr \<lparr>dims = [''time''], shape = [2], vals = [NaN, NaN]\<rparr>
   \<and> array_max \<lparr>dims = [''time''], shape = [2], vals = [NZero, Fin (- 1)]\<rparr> = Inr NZero
   \<and> preprocess_weights (series ''time'' [3, 5]) [''time''] (Str ''time'')
        (Some \<lparr>dims = [''time''], shape = [2], vals = [NZero, Fin (- 1)]\<rparr>)
      = Inr \<lparr>dims = [''time''], shape = [2], vals = [NaN, PInf]\<rparr>
   \<and> array_max (series ''time'' [- 1, - 2]) = Inr (Fin (- 1))
   \<and> preprocess_weights (series ''time'' [3, 5]) [''time''] (Str ''time'')
        (Some (series ''time'' [- 1, - 2]))
      = Inr \<lparr>dims = [''time''], shape = [2], vals = [Fin 1, Fin 2]\<rparr>"
proof -
  let ?a = "series ''time'' [3, 5]"
  let ?z = "series ''time'' [0, 0]"
  let ?nz = "\<lparr>dims = [''time''], shape = [2], vals = [NZero, Fin (- 1)]\<rparr>"
  let ?n = "series ''time'' [- 1, - 2]"
  have z: "vals ?z \<noteq> [] \<and> (\<forall>v\<in>set (vals ?z). v = Fin 0)" by (simp add: series_def)
  have zm: "array_max ?z = Inr (Fin 0)"
    by (simp add: series_def array_max_def nanreduce_def fmax2_def)
  have nzm: "array_max ?nz = Inr NZero \<and> Fin 0 \<notin> set (vals ?nz)"
    by (simp add: array_max_def nanreduce_def fmax2_def)
  have n: "vals ?n \<noteq> [] \<and> (\<forall>v\<in>set (vals ?n). \<exists>x<0. v = Fin x)"
    by (simp add: series_def)
  have nm: "array_max ?n = Inr (Fin (- 1))"
    by (simp add: series_def array_max_def nanreduce_def fmax2_def)
  have sc: "size_check ?a [''time''] (Str ''time'') \<lparr>dims = [''time''], shape = [2], vals = xs\<rparr>
      = Inr \<lparr>dims = [''time''], shape = [2], vals = xs\<rparr>" for xs
    by (simp add: size_check_def series_def isel0_def sizes_def dict_eq_def reindex_def
        py_in_def)
  have d1: "?z\<lparr>vals := replicate (length (vals ?z)) NaN\<rparr>
      = \<lparr>dims = [''time''], shape = [2], vals = [NaN, NaN]\<rparr>"
    by (simp add: series_def numeral_2_eq_2)
  have d2: "array_div ?nz NZero = \<lparr>dims = [''time''], shape = [2], vals = [NaN, PInf]\<rparr>"
    by (simp add: array_div_def signed_inf_def)
  have d3: "array_div ?n (Fin (- 1)) = \<lparr>dims = [''time''], shape = [2], vals = [Fin 1, Fin 2]\<rparr>"
    by (simp add: array_div_def series_def)
  from normalization_unguarded [of ?z ?a "[''time'']" "Str ''time''"] z
  have "preprocess_weights ?a [''time''] (Str ''time'') (Some ?z)
      = size_check ?a [''time''] (Str ''time'') (?z\<lparr>vals := replicate (length (vals ?z)) NaN\<rparr>)"
    by blast
  then have r1: "preprocess_weights ?a [''time''] (Str ''time'') (Some ?z)
      = Inr \<lparr>dims = [''time''], shape = [2], vals = [NaN, NaN]\<rparr>"
    by (simp only: d1 sc)
  from normalization_unguarded [of ?nz ?a "[''time'']" "Str ''time''"] nzm
  have "preprocess_weights ?a [''time''] (Str ''time'') (Some ?nz)
      = size_check ?a [''time''] (Str ''time'') (array_div ?nz NZero)"
    by blast
  then have r2: "preprocess_weights ?a [''time''] (Str ''time'') (Some ?nz)
      = Inr \<lparr>dims = [''time''], shape = [2], vals = [NaN, PInf]\<rparr>"
    by (simp only: d2 sc)
  from normalization_unguarded [of ?n ?a "[''time'']" "Str ''time''"] n
  obtain m where "array_max ?n = Inr (Fin m)"
    "preprocess_weights ?a [''time''] (Str ''time'') (Some ?n)
      = size_check ?a [''time''] (Str ''time'') (array_div ?n (Fin m))"
    by blast
  with nm have r3: "preprocess_weights ?a [''time''] (Str ''time'') (Some ?n)
      = Inr \<lparr>dims = [''time''], shape = [2], vals = [Fin 1, Fin 2]\<rparr>"
    by (simp add: d3 sc)
  from zm r1 nzm r2 nm r3 show ?thesis by simp
qed

section \<open>All-negative and all-zero weights on the five metrics\<close>

lemma preprocess_dims_Str: "preprocess_dims (Str s) = ([s], [- 1])"
  using py_range_axis [of 1] by (simp add: preprocess_dims_def)

lemma preprocess_dims_Lst:
  "preprocess_dims (Lst ds) = (ds, map (\<lambda>k. - 1 - int k) [0..<length ds])"
  by (simp add: preprocess_dims_def py_range_axis)

text \<open>
  C1.  The claim that every weights array with a negative entry is rejected fails on the
  code when all entries are negative: for the weights \<open>[-1, -2]\<close> along \<open>time\<close> each of
  the five metric functions raises nothing and hands the kernel the weights \<open>[1, 2]\<close>.
  (When the maximum is positive, a negative entry is rejected unless its quotient by the
  maximum underflows to \<open>-0.0\<close>: \<open>negative_entry_rejected\<close>.)
\<close>

theorem all_negative_weights_accepted:
  "passed_weights (pearson_r (\<lambda>c. c) (series ''time'' [3, 5]) (series ''time'' [4, 6])
      (Str ''time'') (Some (series ''time'' [- 1, - 2]))) = Inr (series ''time'' [1, 2])
   \<and> passed_weights (pearson_r_p_value (\<lambda>c. c) (series ''time'' [3, 5]) (series ''time'' [4, 6])
      (Str ''time'') (Some (series ''time'' [- 1, - 2]))) = Inr (series ''time'' [1, 2])
   \<and> passed_weights (rmse (\<lambda>c. c) (series ''time'' [3, 5]) (series ''time'' [4, 6])
      (Str ''time'') (Some (series ''time'' [- 1, - 2]))) = Inr (series ''time'' [1, 2])
   \<and> passed_weights (mse (\<lambda>c. c) (series ''time'' [3, 5]) (series ''time'' [4, 6])
      (Str ''time'') (Some (series ''time'' [- 1, - 2]))) = Inr (series ''time'' [1, 2])
   \<and> passed_weights (mae (\<lambda>c. c) (series ''time'' [3, 5]) (series ''time'' [4, 6])
      (Str ''time'') (Some (series ''time'' [- 1, - 2]))) = Inr (series ''time'' [1, 2])"
  by (simp add: passed_weights_def pearson_r_stack_inputs pearson_r_p_value_stack_inputs rmse_def mse_def mae_def
      stack_inputs_def preprocess_dims_Str
      preprocess_weights_Some series_def nanreduce_def fmax2_def fmin2_def Let_def
      isel0_def sizes_def dict_eq_def reindex_def array_div_def py_in_def)

text \<open>
  C4.  The claim that the normalized weights of every accepted array lie between 0 and 1
  fails on the code: the weights \<open>[-1, -2]\<close> are accepted and normalized to \<open>[1, 2]\<close>, and
  the weights \<open>[0, 0]\<close> are accepted and normalized to not-a-number.  (When the maximum
  is positive, accepted weights do normalize into the interval, entries that are
  not-a-number apart and \<open>-0.0\<close> counted as zero:
  \<open>accepted_normalized_in_unit_interval\<close>.)
\<close>

theorem normalized_weights_outside_unit_interval:
  "preprocess_weights (series ''time'' [3, 5]) [''time''] (Str ''time'')
      (Some (series ''time'' [- 1, - 2])) = Inr (series ''time'' [1, 2])
   \<and> array_max (series ''time'' [- 1, - 2]) = Inr (Fin (- 1))
   \<and> vals (array_div (series ''time'' [- 1, - 2]) (Fin (- 1))) = [Fin 1, Fin 2]
   \<and> \<not> in_unit_interval (Fin 2)
   \<and> preprocess_weights (series ''time'' [3, 5]) [''time''] (Str ''time'')
      (Some (series ''time'' [0, 0])) = Inr \<lparr>dims = [''time''], shape = [2], vals = [NaN, NaN]\<rparr>
   \<and> \<not> in_unit_interval NaN"
  by (simp add: in_unit_interval_def array_max_def
      preprocess_weights_Some series_def nanreduce_def fmax2_def fmin2_def Let_def
      isel0_def sizes_def dict_eq_def reindex_def array_div_def py_in_def)


section \<open>The metric functions: what reaches the kernel\<close>

lemma stack_error: "stack a new ds = Inl e \<Longrightarrow> \<exists>f. e = EngineError f"
  by (auto simp: stack_def Let_def split: if_splits)

lemma preprocess_weights_None [simp]: "preprocess_weights a ds nd None = Inr (ones_like a)"
  by (simp add: preprocess_weights_def)

lemma stack_inputs_None_error:
  "stack_inputs a b d None = Inl e \<Longrightarrow> e = IndexError \<or> (\<exists>f. e = EngineError f)"
  by (auto simp: stack_inputs_def Let_def split: prod.splits if_splits sum.splits list.splits
      dest: stack_error)

text \<open>
  C8.  Without weights the weight preprocessor returns the all-ones array with the
  dimensions, sizes and number of elements of \<open>a\<close>, whatever \<open>a\<close>, \<open>dim\<close> and \<open>new_dim\<close> are:
  no maximum is taken, no sign and no size is checked.  So \<open>rmse\<close>, \<open>mse\<close> and \<open>mae\<close>
  always reach the kernel with these weights, and the correlation functions, which may
  still fail inside the engine while stacking, never end in a validation error.
\<close>

theorem no_weights_no_validation:
  "preprocess_weights a ds nd None = Inr (ones_like a)
   \<and> dims (ones_like a) = dims a \<and> shape (ones_like a) = shape a
   \<and> vals (ones_like a) = replicate (length (vals a)) (Fin 1)
   \<and> rmse u a b d None = Inr (u \<lparr>func = Np_rmse, inputs = [a, b, ones_like a],
        input_core_dims = replicate 3 (fst (preprocess_dims d)),
        axis = Axis_tuple (snd (preprocess_dims d))\<rparr>)
   \<and> mse u a b d None = Inr (u \<lparr>func = Np_mse, inputs = [a, b, ones_like a],
        input_core_dims = replicate 3 (fst (preprocess_dims d)),
        axis = Axis_tuple (snd (preprocess_dims d))\<rparr>)
   \<and> mae u a b d None = Inr (u \<lparr>func = Np_mae, inputs = [a, b, ones_like a],
        input_core_dims = replicate 3 (fst (preprocess_dims d)),
        axis = Axis_tuple (snd (preprocess_dims d))\<rparr>)
   \<and> \<not> is_value_error (pearson_r u a b d None)
   \<and> \<not> is_value_error (pearson_r_p_value u a b d None)"
proof -
  have ones: "vals (ones_like a) = replicate (length (vals a)) (Fin 1)"
    by (simp add: ones_like_def map_replicate_const)
  have r3: "replicate 3 x = [x, x, x]" for x :: "string list"
    by (simp add: numeral_3_eq_3)
  have p: "\<not> is_value_error (pearson_r u a b d None)"
    by (auto simp: is_value_error_def pearson_r_stack_inputs split: sum.splits error.splits
        dest: stack_inputs_None_error)
  have q: "\<not> is_value_error (pearson_r_p_value u a b d None)"
    by (auto simp: is_value_error_def pearson_r_p_value_stack_inputs split: sum.splits error.splits
        dest: stack_inputs_None_error)
  show ?thesis
    using ones p q
    by (simp add: rmse_def mse_def mae_def ones_like_def r3 split: prod.splits)
qed

text \<open>
  C7.  \<open>rmse\<close>, \<open>mse\<close> and \<open>mae\<close> do not stack: the kernel receives \<open>a\<close> and \<open>b\<close> as they
  were passed, the list of names from the dimension normalizer as the core dimensions of
  each input, and the normalizer's axis tuple \<open>(-1, ..., -len(dim))\<close> as \<open>axis\<close>.  The
  weight preprocessor is called with that same list of names both as \<open>dim\<close> and as
  \<open>new_dim\<close>, so its test \<open>i in new_dim\<close> is membership in the list; its error, if any,
  is the error of the metric.
\<close>

theorem error_family_no_stacking:
  "rmse u a b d w =
     (case preprocess_weights a (fst (preprocess_dims d)) (Lst (fst (preprocess_dims d))) w of
        Inl e \<Rightarrow> Inl e
      | Inr wts \<Rightarrow> Inr (u \<lparr>func = Np_rmse, inputs = [a, b, wts],
          input_core_dims = replicate 3 (fst (preprocess_dims d)),
          axis = Axis_tuple (snd (preprocess_dims d))\<rparr>))
   \<and> mse u a b d w =
     (case preprocess_weights a (fst (preprocess_dims d)) (Lst (fst (preprocess_dims d))) w of
        Inl e \<Rightarrow> Inl e
      | Inr wts \<Rightarrow> Inr (u \<lparr>func = Np_mse, inputs = [a, b, wts],
          input_core_dims = replicate 3 (fst (preprocess_dims d)),
          axis = Axis_tuple (snd (preprocess_dims d))\<rparr>))
   \<and> mae u a b d w =
     (case preprocess_weights a (fst (preprocess_dims d)) (Lst (fst (preprocess_dims d))) w of
        Inl e \<Rightarrow> Inl e
      | Inr wts \<Rightarrow> Inr (u \<lparr>func = Np_mae, inputs = [a, b, wts],
          input_core_dims = replicate 3 (fst (preprocess_dims d)),
          axis = Axis_tuple (snd (preprocess_dims d))\<rparr>))
   \<and> snd (preprocess_dims d) = map (\<lambda>k. - 1 - int k) [0..<length (fst (preprocess_dims d))]
   \<and> py_in i (Lst (fst (preprocess_dims d))) = (i \<in> set (fst (preprocess_dims d)))"
proof -
  have r3: "replicate 3 x = [x, x, x]" for x :: "string list"
    by (simp add: numeral_3_eq_3)
  have ax: "snd (preprocess_dims d) = map (\<lambda>k. - 1 - int k) [0..<length (fst (preprocess_dims d))]"
    by (simp add: preprocess_dims_def py_range_axis Let_def)
  show ?thesis
    using ax by (simp add: rmse_def mse_def mae_def r3 py_in_def split: prod.splits sum.splits)
qed

section \<open>The weight preprocessor: the size check\<close>

lemma is_prefix_iff: "is_prefix i s \<longleftrightarrow> (\<exists>q. s = i @ q)"
  by (induction i s rule: is_prefix.induct) auto

lemma str_contains_iff: "str_contains i s \<longleftrightarrow> (\<exists>p q. s = p @ i @ q)"
proof (induction s)
  case Nil
  then show ?case by auto
next
  case (Cons c s)
  have "(\<exists>p q. c # s = p @ i @ q) \<longleftrightarrow> (\<exists>q. c # s = i @ q) \<or> (\<exists>p q. s = p @ i @ q)"
  proof
    assume "\<exists>p q. c # s = p @ i @ q"
    then obtain p q where pq: "c # s = p @ i @ q" by blast
    show "(\<exists>q. c # s = i @ q) \<or> (\<exists>p q. s = p @ i @ q)"
    proof (cases p)
      case Nil
      with pq show ?thesis by auto
    next
      case (Cons c' p')
      with pq have "s = p' @ i @ q" by simp
      then show ?thesis by blast
    qed
  next
    assume "(\<exists>q. c # s = i @ q) \<or> (\<exists>p q. s = p @ i @ q)"
    then show "\<exists>p q. c # s = p @ i @ q"
    proof
      assume "\<exists>q. c # s = i @ q"
      then obtain q where "c # s = [] @ i @ q" by auto
      then show ?thesis by blast
    next
      assume "\<exists>p q. s = p @ i @ q"
      then obtain p q where "c # s = (c # p) @ i @ q" by auto
      then show ?thesis by blast
    qed
  qed
  with Cons show ?case by (simp add: is_prefix_iff)
qed

lemma sizes_reindex [simp]: "sizes (reindex a sz) = sz"
  by (simp add: sizes_def reindex_def zip_map_fst_snd)

lemma isel0_sizes:
  "isel0 a ks = Inr a0 \<Longrightarrow> sizes a0 = filter (\<lambda>(d, n). d \<notin> set ks) (sizes a)"
  by (auto simp: isel0_def split: if_splits)

lemma dict_eq_iff: "dict_eq xs ys \<longleftrightarrow> map_of xs = map_of ys"
proof
  assume eq: "dict_eq xs ys"
  show "map_of xs = map_of ys"
  proof
    fix k
    show "map_of xs k = map_of ys k"
    proof (cases "k \<in> fst ` set xs \<union> fst ` set ys")
      case True
      with eq show ?thesis by (auto simp: dict_eq_def list_all_iff)
    next
      case False
      then have "map_of xs k = None" "map_of ys k = None"
        by (simp_all add: map_of_eq_None_iff)
      then show ?thesis by simp
    qed
  qed
next
  assume "map_of xs = map_of ys"
  then show "dict_eq xs ys" by (simp add: dict_eq_def list_all_iff)
qed

lemma map_of_filter_key:
  "map_of (filter (\<lambda>(d, n). P d) xs) k = (if P k then map_of xs k else None)"
  by (induction xs) auto

lemma map_of_sizes_Some:
  "length (shape a) = length (dims a) \<Longrightarrow> i \<in> set (dims a) \<Longrightarrow> \<exists>n. map_of (sizes a) i = Some n"
proof -
  assume "length (shape a) = length (dims a)" "i \<in> set (dims a)"
  then have "i \<in> set (map fst (sizes a))" by (simp add: sizes_def)
  then have "i \<in> fst ` set (sizes a)" by (simp only: set_map)
  then have "map_of (sizes a) i \<noteq> None" by (simp add: map_of_eq_None_iff)
  then show ?thesis by auto
qed

lemma map_of_sizes_dims: "map_of (sizes a) i = Some n \<Longrightarrow> i \<in> set (dims a)"
  by (auto simp: sizes_def dest: map_of_SomeD set_zip_leftD)

lemma preprocess_weights_accepts:
  assumes "preprocess_weights a ds nd (Some w) = Inr r"
  shows "\<exists>a0. isel0 a (filter (\<lambda>i. \<not> py_in i nd) (dims a)) = Inr a0
           \<and> dict_eq (sizes w) (sizes a0)"
  using assms
  by (auto simp: preprocess_weights_Some Let_def split: if_splits sum.splits)

lemma sizes_fst_dims: "(d, n) \<in> set (sizes a) \<Longrightarrow> d \<in> set (dims a)"
  by (auto simp: sizes_def dest: set_zip_leftD)

lemma py_in_Str_iff: "py_in j (Str s) \<longleftrightarrow> (\<exists>p q. s = p @ j @ q)"
  by (simp add: py_in_def str_contains_iff)

lemma isel0_Str_sizes:
  assumes "isel0 a (filter (\<lambda>j. \<not> py_in j (Str s)) (dims a)) = Inr a0"
  shows "sizes a0 = filter (\<lambda>(d, n). \<exists>p q. s = p @ d @ q) (sizes a)"
proof -
  let ?ks = "filter (\<lambda>j. \<not> py_in j (Str s)) (dims a)"
  have "d \<notin> set ?ks \<longleftrightarrow> (\<exists>p q. s = p @ d @ q)" if "(d, n) \<in> set (sizes a)" for d n
    using sizes_fst_dims [OF that] by (simp add: py_in_Str_iff)
  then have "filter (\<lambda>(d, n). d \<notin> set ?ks) (sizes a)
      = filter (\<lambda>(d, n). \<exists>p q. s = p @ d @ q) (sizes a)"
    by (intro filter_cong refl) auto
  with isel0_sizes [OF assms] show ?thesis by simp
qed

lemma size_verdict_Str:
  assumes "passes_negative_check w"
    and "isel0 a (filter (\<lambda>j. \<not> py_in j (Str s)) (dims a)) = Inr a0"
  shows "preprocess_weights a ds (Str s) (Some w)
      = Inl (ValueError (mismatch_msg ds (sizes w) (sizes a0)))
    \<longleftrightarrow> \<not> dict_eq (sizes w) (sizes a0)"
  using assms
  by (auto simp: preprocess_weights_Some passes_negative_check_def array_max_def array_min_def
      Let_def split: if_splits sum.splits dest: broadcast_error)

text \<open>
  C10.  When \<open>new_dim\<close> is a string \<open>s\<close>, the test \<open>i in new_dim\<close> holds exactly when the
  name \<open>i\<close> occurs inside \<open>s\<close> (\<open>s = p @ i @ q\<close>).  So the dimensions of \<open>a\<close> that the size
  check collapses are exactly those whose name does not occur inside \<open>s\<close>, the mapping the
  weights are compared with holds exactly the sizes of the dimensions whose name does,
  and weights that pass the sign check end in the size-mismatch error exactly when their
  size mapping differs from it.  A dimension \<open>i\<close> of \<open>a\<close> whose name occurs inside \<open>s\<close>,
  whether or not it is the reduced dimension itself, is therefore not collapsed, keeps
  its size in the compared mapping, and every weights array the preprocessor accepts has
  that dimension with the size it has in \<open>a\<close>; a dimension \<open>j\<close> whose name does not occur
  inside \<open>s\<close> is collapsed, and no accepted weights array has it.
\<close>

theorem substring_dimension_not_dropped:
  assumes "length (shape a) = length (dims a)" and "i \<in> set (dims a)" and "s = p @ i @ q"
  shows "py_in i (Str s)
    \<and> i \<notin> set (filter (\<lambda>j. \<not> py_in j (Str s)) (dims a))
    \<and> (\<forall>a0. isel0 a (filter (\<lambda>j. \<not> py_in j (Str s)) (dims a)) = Inr a0
          \<longrightarrow> map_of (sizes a0) i = Some (size_of a i) \<and> i \<in> set (dims a0))
    \<and> (\<forall>r. preprocess_weights a ds (Str s) (Some w) = Inr r
          \<longrightarrow> map_of (sizes w) i = Some (size_of a i) \<and> i \<in> set (dims w))
    \<and> (\<forall>j. py_in j (Str s) \<longleftrightarrow> (\<exists>p q. s = p @ j @ q))
    \<and> filter (\<lambda>j. \<not> py_in j (Str s)) (dims a)
        = filter (\<lambda>j. \<not> (\<exists>p q. s = p @ j @ q)) (dims a)
    \<and> (\<forall>a0. isel0 a (filter (\<lambda>j. \<not> py_in j (Str s)) (dims a)) = Inr a0
          \<longrightarrow> sizes a0 = filter (\<lambda>(d, n). \<exists>p q. s = p @ d @ q) (sizes a))
    \<and> (\<forall>a0. passes_negative_check w
          \<and> isel0 a (filter (\<lambda>j. \<not> py_in j (Str s)) (dims a)) = Inr a0
          \<longrightarrow> (preprocess_weights a ds (Str s) (Some w)
                = Inl (ValueError (mismatch_msg ds (sizes w)
                    (filter (\<lambda>(d, n). \<exists>p q. s = p @ d @ q) (sizes a))))
               \<longleftrightarrow> \<not> dict_eq (sizes w)
                    (filter (\<lambda>(d, n). \<exists>p q. s = p @ d @ q) (sizes a))))
    \<and> (\<forall>j. j \<in> set (dims a) \<and> \<not> (\<exists>p q. s = p @ j @ q)
          \<longrightarrow> j \<in> set (filter (\<lambda>j. \<not> py_in j (Str s)) (dims a))
            \<and> (\<forall>a0. isel0 a (filter (\<lambda>j. \<not> py_in j (Str s)) (dims a)) = Inr a0
                  \<longrightarrow> map_of (sizes a0) j = None)
            \<and> (\<forall>r. preprocess_weights a ds (Str s) (Some w) = Inr r
                  \<longrightarrow> map_of (sizes w) j = None))"
proof -
  let ?ks = "filter (\<lambda>j. \<not> py_in j (Str s)) (dims a)"
  let ?req = "filter (\<lambda>(d, n). \<exists>p q. s = p @ d @ q) (sizes a)"
  have sub: "py_in i (Str s)" using assms(3) by (auto simp: py_in_def str_contains_iff)
  then have keep: "i \<notin> set ?ks" by simp
  from map_of_sizes_Some [OF assms(1,2)] obtain n where n: "map_of (sizes a) i = Some n" ..
  then have sz: "size_of a i = n" by (simp add: size_of_def)
  have a0: "map_of (sizes a0) i = Some (size_of a i) \<and> i \<in> set (dims a0)"
    if "isel0 a ?ks = Inr a0" for a0
  proof -
    have "map_of (sizes a0) i = Some n"
      using isel0_sizes [OF that] keep n
        map_of_filter_key [of "\<lambda>d. d \<notin> set ?ks" "sizes a" i]
      by simp
    then show ?thesis using sz map_of_sizes_dims by simp
  qed
  have acc: "\<exists>a0. isel0 a ?ks = Inr a0 \<and> map_of (sizes w) = map_of (sizes a0)"
    if "preprocess_weights a ds (Str s) (Some w) = Inr r" for r
    using preprocess_weights_accepts [OF that] by (auto simp: dict_eq_iff)
  have wi: "map_of (sizes w) i = Some (size_of a i) \<and> i \<in> set (dims w)"
    if "preprocess_weights a ds (Str s) (Some w) = Inr r" for r
  proof -
    from acc [OF that] obtain a0 where i0: "isel0 a ?ks = Inr a0"
      and eq: "map_of (sizes w) = map_of (sizes a0)" by blast
    with a0 [OF i0] have "map_of (sizes w) i = Some (size_of a i)" by simp
    then show ?thesis using map_of_sizes_dims by simp
  qed
  have ks: "?ks = filter (\<lambda>j. \<not> (\<exists>p q. s = p @ j @ q)) (dims a)"
    by (simp add: py_in_Str_iff)
  have verdict: "preprocess_weights a ds (Str s) (Some w)
        = Inl (ValueError (mismatch_msg ds (sizes w) ?req))
      \<longleftrightarrow> \<not> dict_eq (sizes w) ?req"
    if "passes_negative_check w \<and> isel0 a ?ks = Inr a0" for a0
    using size_verdict_Str [of w a s a0 ds] that isel0_Str_sizes [of a s a0] by simp
  have dropped: "j \<in> set ?ks
      \<and> (\<forall>a0. isel0 a ?ks = Inr a0 \<longrightarrow> map_of (sizes a0) j = None)
      \<and> (\<forall>r. preprocess_weights a ds (Str s) (Some w) = Inr r \<longrightarrow> map_of (sizes w) j = None)"
    if "j \<in> set (dims a) \<and> \<not> (\<exists>p q. s = p @ j @ q)" for j
  proof -
    from that have j: "j \<in> set ?ks" by (simp add: py_in_Str_iff)
    have none: "map_of (sizes a0) j = None" if "isel0 a ?ks = Inr a0" for a0
      using isel0_sizes [OF that] j map_of_filter_key [of "\<lambda>d. d \<notin> set ?ks" "sizes a" j]
      by simp
    have "map_of (sizes w) j = None"
      if "preprocess_weights a ds (Str s) (Some w) = Inr r" for r
      using acc [OF that] none by auto
    with j none show ?thesis by blast
  qed
  show ?thesis
    using sub keep a0 wi ks verdict dropped isel0_Str_sizes [of a s] py_in_Str_iff [of _ s]
    by (intro conjI allI impI) blast+
qed

theorem substring_dimension_not_dropped_witness:
  "py_in ''m'' (Str ''time'') \<and> \<not> py_in ''lat'' (Str ''time'')
   \<and> filter (\<lambda>j. \<not> py_in j (Str ''time'')) [''lat'', ''m'', ''time''] = [''lat'']
   \<and> preprocess_weights \<lparr>dims = [''m'', ''time''], shape = [2, 2], vals = [Fin 1, Fin 2, Fin 3, Fin 4]\<rparr>
        [''time''] (Str ''time'')
        (Some \<lparr>dims = [''m'', ''time''], shape = [2, 2], vals = [Fin 1, Fin 1, Fin 1, Fin 2]\<rparr>)
      = Inr \<lparr>dims = [''m'', ''time''], shape = [2, 2],
             vals = [Fin (1 / 2), Fin (1 / 2), Fin (1 / 2), Fin 1]\<rparr>
   \<and> map_of (sizes \<lparr>dims = [''m'', ''time''], shape = [2, 2], vals = [Fin 1, Fin 1, Fin 1, Fin 2]\<rparr>) ''m''
      = Some (size_of \<lparr>dims = [''m'', ''time''], shape = [2, 2], vals = [Fin 1, Fin 2, Fin 3, Fin 4]\<rparr> ''m'')
   \<and> preprocess_weights \<lparr>dims = [''m'', ''time''], shape = [2, 2], vals = [Fin 1, Fin 2, Fin 3, Fin 4]\<rparr>
        [''time''] (Str ''time'') (Some (series ''time'' [1, 2]))
      = Inl (ValueError (mismatch_msg [''time''] [(''time'', 2)] [(''m'', 2), (''time'', 2)]))
   \<and> preprocess_weights \<lparr>dims = [''lat'', ''time''], shape = [2, 2], vals = [Fin 1, Fin 2, Fin 3, Fin 4]\<rparr>
        [''time''] (Str ''time'') (Some (series ''time'' [1, 2]))
      = Inr \<lparr>dims = [''lat'', ''time''], shape = [2, 2],
             vals = [Fin (1 / 2), Fin 1, Fin (1 / 2), Fin 1]\<rparr>
   \<and> map_of (sizes (series ''time'' [1, 2])) ''lat'' = None"
proof -
  let ?a = "\<lparr>dims = [''m'', ''time''], shape = [2, 2], vals = [Fin 1, Fin 2, Fin 3, Fin 4]\<rparr>"
  let ?b = "\<lparr>dims = [''lat'', ''time''], shape = [2, 2], vals = [Fin 1, Fin 2, Fin 3, Fin 4]\<rparr>"
  let ?w = "\<lparr>dims = [''m'', ''time''], shape = [2, 2], vals = [Fin 1, Fin 1, Fin 1, Fin 2]\<rparr>"
  let ?t = "series ''time'' [1, 2]"
  have h: "length (shape ?a) = length (dims ?a)" "''m'' \<in> set (dims ?a)"
    "''time'' = ''ti'' @ ''m'' @ ''e''" by simp_all
  have g: "length (shape ?b) = length (dims ?b)" "''time'' \<in> set (dims ?b)"
    "''time'' = [] @ ''time'' @ []" by simp_all
  have acc: "preprocess_weights ?a [''time''] (Str ''time'') (Some ?w)
      = Inr \<lparr>dims = [''m'', ''time''], shape = [2, 2],
             vals = [Fin (1 / 2), Fin (1 / 2), Fin (1 / 2), Fin 1]\<rparr>"
    by (simp add: preprocess_weights_Some nanreduce_def fmax2_def fmin2_def Let_def
        isel0_def sizes_def dict_eq_def reindex_def array_div_def py_in_def)
  have rej: "preprocess_weights ?a [''time''] (Str ''time'') (Some ?t)
      = Inl (ValueError (mismatch_msg [''time''] [(''time'', 2)] [(''m'', 2), (''time'', 2)]))"
    by (simp add: preprocess_weights_Some nanreduce_def fmax2_def fmin2_def Let_def series_def
        isel0_def sizes_def dict_eq_def reindex_def array_div_def py_in_def numeral_2_eq_2)
  have lat: "preprocess_weights ?b [''time''] (Str ''time'') (Some ?t)
      = Inr \<lparr>dims = [''lat'', ''time''], shape = [2, 2],
             vals = [Fin (1 / 2), Fin 1, Fin (1 / 2), Fin 1]\<rparr>"
    by (simp add: preprocess_weights_Some nanreduce_def fmax2_def fmin2_def Let_def series_def
        isel0_def sizes_def dict_eq_def reindex_def array_div_def py_in_def
        broadcast_def lookup_def offset_def env_of_def upt_conv_Cons numeral_2_eq_2)
  have f: "filter (\<lambda>j. \<not> py_in j (Str ''time'')) [''lat'', ''m'', ''time''] = [''lat'']"
    by (simp add: py_in_def)
  have nl: "''lat'' \<in> set (dims ?b) \<and> \<not> (\<exists>p q. ''time'' = p @ ''lat'' @ q)"
    using str_contains_iff [of "''lat''" "''time''"] by simp
  show ?thesis
    using substring_dimension_not_dropped [OF h, of "[''time'']" ?w]
      substring_dimension_not_dropped [OF g, of "[''time'']" ?t] acc rej lat f nl
    by (simp add: py_in_def)
qed

lemma str_contains_refl [simp]: "str_contains s s"
  using str_contains_iff [of s s] by (auto intro: exI [of _ "[]"])

lemma isel0_Lst:
  assumes "other_dims_nonempty a ds"
  shows "isel0 a (filter (\<lambda>i. \<not> py_in i (Lst ds)) (dims a)) = Inr (reindex a (restrict_sizes a ds))"
proof -
  let ?ks = "filter (\<lambda>i. \<not> py_in i (Lst ds)) (dims a)"
  have mem: "d \<in> set ?ks \<longleftrightarrow> d \<notin> set ds" if "(d, n) \<in> set (sizes a)" for d n
    using sizes_fst_dims [OF that] by (simp add: py_in_def)
  have "\<not> list_ex (\<lambda>(d, n). d \<in> set ?ks \<and> n = 0) (sizes a)"
    using assms mem unfolding other_dims_nonempty_def list_ex_iff by blast
  moreover have "filter (\<lambda>(d, n). d \<notin> set ?ks) (sizes a) = restrict_sizes a ds"
    unfolding restrict_sizes_def using mem by (intro filter_cong refl) auto
  ultimately show ?thesis by (simp add: isel0_def)
qed

lemma isel0_Str:
  assumes "other_dims_nonempty a [s]" "no_substring_clash a s"
  shows "isel0 a (filter (\<lambda>i. \<not> py_in i (Str s)) (dims a)) = Inr (reindex a (restrict_sizes a [s]))"
proof -
  let ?ks = "filter (\<lambda>i. \<not> py_in i (Str s)) (dims a)"
  have mem: "d \<in> set ?ks \<longleftrightarrow> d \<notin> set [s]" if "(d, n) \<in> set (sizes a)" for d n
    using sizes_fst_dims [OF that] assms(2)
    by (auto simp: py_in_def no_substring_clash_def list_all_iff)
  have "\<not> list_ex (\<lambda>(d, n). d \<in> set ?ks \<and> n = 0) (sizes a)"
    using assms(1) mem unfolding other_dims_nonempty_def list_ex_iff by blast
  moreover have "filter (\<lambda>(d, n). d \<notin> set ?ks) (sizes a) = restrict_sizes a [s]"
    unfolding restrict_sizes_def using mem by (intro filter_cong refl) auto
  ultimately show ?thesis by (simp add: isel0_def)
qed

lemma mismatch_raised:
  assumes "passes_negative_check w"
    and "isel0 a (filter (\<lambda>i. \<not> py_in i nd) (dims a)) = Inr a0"
    and "\<not> dict_eq (sizes w) (sizes a0)"
  shows "preprocess_weights a ds nd (Some w) = Inl (ValueError (mismatch_msg ds (sizes w) (sizes a0)))"
  using assms
  by (auto simp: preprocess_weights_Some passes_negative_check_def array_max_def array_min_def
      Let_def split: if_splits)

lemma mismatch_raised_Lst:
  assumes "passes_negative_check w" "other_dims_nonempty a ds"
    "\<not> dict_eq (sizes w) (restrict_sizes a ds)"
  shows "preprocess_weights a ds' (Lst ds) (Some w)
    = Inl (ValueError (mismatch_msg ds' (sizes w) (restrict_sizes a ds)))"
  using mismatch_raised [OF assms(1) isel0_Lst [OF assms(2)]] assms(3) by simp

lemma mismatch_raised_Str:
  assumes "passes_negative_check w" "other_dims_nonempty a [s]" "no_substring_clash a s"
    "\<not> dict_eq (sizes w) (restrict_sizes a [s])"
  shows "preprocess_weights a ds' (Str s) (Some w)
    = Inl (ValueError (mismatch_msg ds' (sizes w) (restrict_sizes a [s])))"
  using mismatch_raised [OF assms(1) isel0_Str [OF assms(2,3)]] assms(4) by simp

lemma stack_inputs_single:
  "fst (preprocess_dims d) = [s] \<Longrightarrow>
   stack_inputs a b d w =
     (case preprocess_weights a [s] (Str s) w of
        Inl e \<Rightarrow> Inl e
      | Inr wts \<Rightarrow> Inr (a, b, s, wts))"
  by (cases "preprocess_dims d") (simp add: stack_inputs_def)

lemma stack_inputs_multi:
  "1 < length ds \<Longrightarrow>
   stack_inputs a b (Lst ds) w =
     (case stack a (join ''_'' ds) ds of
        Inl e \<Rightarrow> Inl e
      | Inr a' \<Rightarrow>
          (case stack b (join ''_'' ds) ds of
             Inl e \<Rightarrow> Inl e
           | Inr b' \<Rightarrow>
               (case w of
                  None \<Rightarrow> Inr (a', b', join ''_'' ds, ones_like a')
                | Some w0 \<Rightarrow>
                    (case stack w0 (join ''_'' ds) ds of
                       Inl e \<Rightarrow> Inl e
                     | Inr w' \<Rightarrow>
                         (case preprocess_weights a' ds (Str (join ''_'' ds)) (Some w') of
                            Inl e \<Rightarrow> Inl e
                          | Inr wts \<Rightarrow> Inr (a', b', join ''_'' ds, wts))))))"
  by (simp add: stack_inputs_def preprocess_dims_Lst split: sum.splits option.splits)


text \<open>
  C3, as stated, fails: the sign check comes first.  The weights \<open>[-1, 1, 1]\<close> along
  \<open>time\<close> do not have the size of \<open>a\<close> (3 against 2), and each of the five metric
  functions raises the negative-weight error, not the size-mismatch error.
\<close>

theorem size_mismatch_preempted_by_sign_check:
  "\<not> dict_eq (sizes (series ''time'' [- 1, 1, 1])) (restrict_sizes (series ''time'' [3, 5]) [''time''])
   \<and> pearson_r (\<lambda>c. c) (series ''time'' [3, 5]) (series ''time'' [4, 6]) (Str ''time'')
        (Some (series ''time'' [- 1, 1, 1])) = Inl (ValueError negative_msg)
   \<and> pearson_r_p_value (\<lambda>c. c) (series ''time'' [3, 5]) (series ''time'' [4, 6]) (Str ''time'')
        (Some (series ''time'' [- 1, 1, 1])) = Inl (ValueError negative_msg)
   \<and> rmse (\<lambda>c. c) (series ''time'' [3, 5]) (series ''time'' [4, 6]) (Str ''time'')
        (Some (series ''time'' [- 1, 1, 1])) = Inl (ValueError negative_msg)
   \<and> mse (\<lambda>c. c) (series ''time'' [3, 5]) (series ''time'' [4, 6]) (Str ''time'')
        (Some (series ''time'' [- 1, 1, 1])) = Inl (ValueError negative_msg)
   \<and> mae (\<lambda>c. c) (series ''time'' [3, 5]) (series ''time'' [4, 6]) (Str ''time'')
        (Some (series ''time'' [- 1, 1, 1])) = Inl (ValueError negative_msg)
   \<and> negative_msg \<noteq> mismatch_msg [''time''] (sizes (series ''time'' [- 1, 1, 1]))
        (restrict_sizes (series ''time'' [3, 5]) [''time''])"
  by (simp add: pearson_r_stack_inputs pearson_r_p_value_stack_inputs rmse_def mse_def mae_def
      stack_inputs_def preprocess_dims_Str restrict_sizes_def
      preprocess_weights_Some series_def nanreduce_def fmax2_def fmin2_def Let_def
      sizes_def dict_eq_def array_div_def)

text \<open>
  C3, amended.  Let the weights that reach the weight preprocessor have an element and a
  normalized minimum that is not below zero, let no other dimension of \<open>a\<close> have size 0,
  and let the size mapping of the weights differ from the size mapping of \<open>a\<close> restricted
  to the reduction dimensions.  Then \<open>rmse\<close>, \<open>mse\<close> and \<open>mae\<close> raise the size-mismatch
  error.  So do \<open>pearson_r\<close> and \<open>pearson_r_p_value\<close> for a single dimension \<open>s\<close>, and for
  several dimensions on the stacked arrays (when stacking \<open>a\<close>, \<open>b\<close> and the weights
  succeeds) with the joined name as the reduction dimension, provided no other dimension
  of \<open>a\<close> has a name that occurs inside the name of the reduction dimension.  The message
  of the error holds the list of requested names and both size mappings.
\<close>

theorem size_mismatch_raised:
  "(passes_negative_check w \<and> other_dims_nonempty a (fst (preprocess_dims d))
      \<and> \<not> dict_eq (sizes w) (restrict_sizes a (fst (preprocess_dims d))) \<longrightarrow>
        rmse u a b d (Some w) = Inl (ValueError (mismatch_msg (fst (preprocess_dims d))
          (sizes w) (restrict_sizes a (fst (preprocess_dims d)))))
      \<and> mse u a b d (Some w) = Inl (ValueError (mismatch_msg (fst (preprocess_dims d))
          (sizes w) (restrict_sizes a (fst (preprocess_dims d)))))
      \<and> mae u a b d (Some w) = Inl (ValueError (mismatch_msg (fst (preprocess_dims d))
          (sizes w) (restrict_sizes a (fst (preprocess_dims d))))))
   \<and> (fst (preprocess_dims d) = [s] \<and> passes_negative_check w \<and> other_dims_nonempty a [s]
      \<and> no_substring_clash a s \<and> \<not> dict_eq (sizes w) (restrict_sizes a [s]) \<longrightarrow>
        pearson_r u a b d (Some w)
          = Inl (ValueError (mismatch_msg [s] (sizes w) (restrict_sizes a [s])))
      \<and> pearson_r_p_value u a b d (Some w)
          = Inl (ValueError (mismatch_msg [s] (sizes w) (restrict_sizes a [s]))))
   \<and> (1 < length ds \<and> stack a (join ''_'' ds) ds = Inr a' \<and> stack b (join ''_'' ds) ds = Inr b'
      \<and> stack w (join ''_'' ds) ds = Inr w' \<and> passes_negative_check w'
      \<and> other_dims_nonempty a' [join ''_'' ds] \<and> no_substring_clash a' (join ''_'' ds)
      \<and> \<not> dict_eq (sizes w') (restrict_sizes a' [join ''_'' ds]) \<longrightarrow>
        pearson_r u a b (Lst ds) (Some w)
          = Inl (ValueError (mismatch_msg ds (sizes w') (restrict_sizes a' [join ''_'' ds])))
      \<and> pearson_r_p_value u a b (Lst ds) (Some w)
          = Inl (ValueError (mismatch_msg ds (sizes w') (restrict_sizes a' [join ''_'' ds]))))
   \<and> Fmt_dims ns \<in> set (mismatch_msg ns wsz asz)
   \<and> Fmt_sizes wsz \<in> set (mismatch_msg ns wsz asz)
   \<and> Fmt_sizes asz \<in> set (mismatch_msg ns wsz asz)"
proof (intro conjI impI)
  assume h: "passes_negative_check w \<and> other_dims_nonempty a (fst (preprocess_dims d))
      \<and> \<not> dict_eq (sizes w) (restrict_sizes a (fst (preprocess_dims d)))"
  obtain ns ax where d: "preprocess_dims d = (ns, ax)" by (cases "preprocess_dims d")
  with h have e: "preprocess_weights a ns (Lst ns) (Some w)
      = Inl (ValueError (mismatch_msg ns (sizes w) (restrict_sizes a ns)))"
    by (intro mismatch_raised_Lst) simp_all
  show "rmse u a b d (Some w) = Inl (ValueError (mismatch_msg (fst (preprocess_dims d))
          (sizes w) (restrict_sizes a (fst (preprocess_dims d)))))"
    by (simp add: rmse_def d e)
  show "mse u a b d (Some w) = Inl (ValueError (mismatch_msg (fst (preprocess_dims d))
          (sizes w) (restrict_sizes a (fst (preprocess_dims d)))))"
    by (simp add: mse_def d e)
  show "mae u a b d (Some w) = Inl (ValueError (mismatch_msg (fst (preprocess_dims d))
          (sizes w) (restrict_sizes a (fst (preprocess_dims d)))))"
    by (simp add: mae_def d e)
next
  assume h: "fst (preprocess_dims d) = [s] \<and> passes_negative_check w \<and> other_dims_nonempty a [s]
      \<and> no_substring_clash a s \<and> \<not> dict_eq (sizes w) (restrict_sizes a [s])"
  then have e: "preprocess_weights a [s] (Str s) (Some w)
      = Inl (ValueError (mismatch_msg [s] (sizes w) (restrict_sizes a [s])))"
    by (intro mismatch_raised_Str) simp_all
  from h have si: "stack_inputs a b d (Some w)
      = Inl (ValueError (mismatch_msg [s] (sizes w) (restrict_sizes a [s])))"
    by (simp add: stack_inputs_single e)
  show "pearson_r u a b d (Some w)
          = Inl (ValueError (mismatch_msg [s] (sizes w) (restrict_sizes a [s])))"
    by (simp add: pearson_r_stack_inputs si)
  show "pearson_r_p_value u a b d (Some w)
          = Inl (ValueError (mismatch_msg [s] (sizes w) (restrict_sizes a [s])))"
    by (simp add: pearson_r_p_value_stack_inputs si)
next
  assume h: "1 < length ds \<and> stack a (join ''_'' ds) ds = Inr a' \<and> stack b (join ''_'' ds) ds = Inr b'
      \<and> stack w (join ''_'' ds) ds = Inr w' \<and> passes_negative_check w'
      \<and> other_dims_nonempty a' [join ''_'' ds] \<and> no_substring_clash a' (join ''_'' ds)
      \<and> \<not> dict_eq (sizes w') (restrict_sizes a' [join ''_'' ds])"
  then have e: "preprocess_weights a' ds (Str (join ''_'' ds)) (Some w')
      = Inl (ValueError (mismatch_msg ds (sizes w') (restrict_sizes a' [join ''_'' ds])))"
    by (intro mismatch_raised_Str) simp_all
  from h have si: "stack_inputs a b (Lst ds) (Some w)
      = Inl (ValueError (mismatch_msg ds (sizes w') (restrict_sizes a' [join ''_'' ds])))"
    by (simp add: stack_inputs_multi e)
  show "pearson_r u a b (Lst ds) (Some w)
          = Inl (ValueError (mismatch_msg ds (sizes w') (restrict_sizes a' [join ''_'' ds])))"
    by (simp add: pearson_r_stack_inputs si)
  show "pearson_r_p_value u a b (Lst ds) (Some w)
          = Inl (ValueError (mismatch_msg ds (sizes w') (restrict_sizes a' [join ''_'' ds])))"
    by (simp add: pearson_r_p_value_stack_inputs si)
qed (simp_all add: mismatch_msg_def)


theorem size_mismatch_raised_witness:
  "rmse (\<lambda>c. c) (series ''time'' [3, 5]) (series ''time'' [4, 6]) (Str ''time'')
      (Some (series ''time'' [1, 1, 1]))
     = Inl (ValueError (mismatch_msg [''time''] [(''time'', 3)] [(''time'', 2)]))
   \<and> mse (\<lambda>c. c) (series ''time'' [3, 5]) (series ''time'' [4, 6]) (Str ''time'')
      (Some (series ''time'' [1, 1, 1]))
     = Inl (ValueError (mismatch_msg [''time''] [(''time'', 3)] [(''time'', 2)]))
   \<and> mae (\<lambda>c. c) (series ''time'' [3, 5]) (series ''time'' [4, 6]) (Str ''time'')
      (Some (series ''time'' [1, 1, 1]))
     = Inl (ValueError (mismatch_msg [''time''] [(''time'', 3)] [(''time'', 2)]))
   \<and> pearson_r (\<lambda>c. c) (series ''time'' [3, 5]) (series ''time'' [4, 6]) (Str ''time'')
      (Some (series ''time'' [1, 1, 1]))
     = Inl (ValueError (mismatch_msg [''time''] [(''time'', 3)] [(''time'', 2)]))
   \<and> pearson_r_p_value (\<lambda>c. c) (series ''time'' [3, 5]) (series ''time'' [4, 6]) (Str ''time'')
      (Some (series ''time'' [1, 1, 1]))
     = Inl (ValueError (mismatch_msg [''time''] [(''time'', 3)] [(''time'', 2)]))
   \<and> pearson_r (\<lambda>c. c)
        \<lparr>dims = [''x'', ''y''], shape = [2, 2], vals = [Fin 1, Fin 2, Fin 3, Fin 4]\<rparr>
        \<lparr>dims = [''x'', ''y''], shape = [2, 2], vals = [Fin 2, Fin 4, Fin 6, Fin 8]\<rparr>
        (Lst [''x'', ''y''])
        (Some \<lparr>dims = [''x'', ''y''], shape = [2, 3],
               vals = [Fin 1, Fin 1, Fin 1, Fin 1, Fin 1, Fin 1]\<rparr>)
     = Inl (ValueError (mismatch_msg [''x'', ''y''] [(''x_y'', 6)] [(''x_y'', 4)]))
   \<and> pearson_r_p_value (\<lambda>c. c)
        \<lparr>dims = [''x'', ''y''], shape = [2, 2], vals = [Fin 1, Fin 2, Fin 3, Fin 4]\<rparr>
        \<lparr>dims = [''x'', ''y''], shape = [2, 2], vals = [Fin 2, Fin 4, Fin 6, Fin 8]\<rparr>
        (Lst [''x'', ''y''])
        (Some \<lparr>dims = [''x'', ''y''], shape = [2, 3],
               vals = [Fin 1, Fin 1, Fin 1, Fin 1, Fin 1, Fin 1]\<rparr>)
     = Inl (ValueError (mismatch_msg [''x'', ''y''] [(''x_y'', 6)] [(''x_y'', 4)]))"
proof -
  let ?a = "series ''time'' [3, 5]" and ?b = "series ''time'' [4, 6]"
  let ?w = "series ''time'' [1, 1, 1]"
  let ?a2 = "\<lparr>dims = [''x'', ''y''], shape = [2, 2], vals = [Fin 1, Fin 2, Fin 3, Fin 4]\<rparr>"
  let ?b2 = "\<lparr>dims = [''x'', ''y''], shape = [2, 2], vals = [Fin 2, Fin 4, Fin 6, Fin 8]\<rparr>"
  let ?w2 = "\<lparr>dims = [''x'', ''y''], shape = [2, 3],
               vals = [Fin 1, Fin 1, Fin 1, Fin 1, Fin 1, Fin 1]\<rparr>"
  let ?a2' = "\<lparr>dims = [''x_y''], shape = [4], vals = [Fin 1, Fin 2, Fin 3, Fin 4]\<rparr>"
  let ?b2' = "\<lparr>dims = [''x_y''], shape = [4], vals = [Fin 2, Fin 4, Fin 6, Fin 8]\<rparr>"
  let ?w2' = "\<lparr>dims = [''x_y''], shape = [6],
               vals = [Fin 1, Fin 1, Fin 1, Fin 1, Fin 1, Fin 1]\<rparr>"
  have d: "fst (preprocess_dims (Str ''time'')) = [''time'']"
    by (simp add: preprocess_dims_Str)
  have w: "passes_negative_check ?w"
    by (simp add: passes_negative_check_def array_max_def array_min_def series_def
        nanreduce_def fmax2_def fmin2_def)
  have o: "other_dims_nonempty ?a [''time'']"
    by (simp add: other_dims_nonempty_def series_def sizes_def)
  have c: "no_substring_clash ?a ''time''"
    by (simp add: no_substring_clash_def series_def)
  have sw: "sizes ?w = [(''time'', 3)]" and sa: "restrict_sizes ?a [''time''] = [(''time'', 2)]"
    by (simp_all add: series_def sizes_def restrict_sizes_def)
  have ne: "\<not> dict_eq [(''time'', 3)] [(''time'', 2::nat)]"
    by (simp add: dict_eq_def)
  have j: "join ''_'' [''x'', ''y''] = ''x_y''" by simp
  have st: "stack ?a2 ''x_y'' [''x'', ''y''] = Inr ?a2'" "stack ?b2 ''x_y'' [''x'', ''y''] = Inr ?b2'"
    "stack ?w2 ''x_y'' [''x'', ''y''] = Inr ?w2'"
    by (simp_all add: stack_def sizes_def size_of_def reindex_def lookup_def offset_def env_of_def
        upt_conv_Cons)
  have w2: "passes_negative_check ?w2'"
    by (simp add: passes_negative_check_def array_max_def array_min_def
        nanreduce_def fmax2_def fmin2_def)
  have o2: "other_dims_nonempty ?a2' [''x_y'']"
    by (simp add: other_dims_nonempty_def sizes_def)
  have c2: "no_substring_clash ?a2' ''x_y''"
    by (simp add: no_substring_clash_def)
  have s2: "sizes ?w2' = [(''x_y'', 6)]" "restrict_sizes ?a2' [''x_y''] = [(''x_y'', 4)]"
    by (simp_all add: sizes_def restrict_sizes_def)
  have ne2: "\<not> dict_eq [(''x_y'', 6)] [(''x_y'', 4::nat)]"
    by (simp add: dict_eq_def)
  have l: "1 < length [''x'', ''y'']" by simp
  show ?thesis
    using
      size_mismatch_raised [where w = ?w and a = ?a and d = "Str ''time''" and u = "\<lambda>c. c"
        and b = ?b and s = "''time''"]
      size_mismatch_raised [where u = "\<lambda>c. c" and ds = "[''x'', ''y'']" and a = ?a2
        and a' = ?a2' and b = ?b2 and b' = ?b2' and w = ?w2 and w' = ?w2']
      d w o c sw sa ne j st w2 o2 c2 s2 ne2 l
    by simp
qed


section \<open>Stacking in the correlation functions\<close>

lemma map_fst_filter_key:
  "map fst (filter (\<lambda>(x, n). P x) xs) = filter P (map fst xs)"
  by (induction xs) auto

lemma stack_result:
  assumes "ds \<noteq> []" "stack a new ds = Inr a'"
  shows "dims a' = map fst (filter (\<lambda>(x, n). x \<notin> set ds) (sizes a)) @ [new]"
    and "shape a' = map snd (filter (\<lambda>(x, n). x \<notin> set ds) (sizes a))
           @ [prod_list (map (size_of a) ds)]"
    and "vals a' = vals (reindex a (filter (\<lambda>(x, n). x \<notin> set ds) (sizes a)
           @ map (\<lambda>x. (x, size_of a x)) ds))"
proof -
  have a': "a' = \<lparr>dims = map fst (filter (\<lambda>(d, n). d \<notin> set ds) (sizes a)) @ [new],
        shape = map snd (filter (\<lambda>(d, n). d \<notin> set ds) (sizes a))
          @ [prod_list (map snd (map (\<lambda>d. (d, size_of a d)) ds))],
        vals = vals (reindex a (filter (\<lambda>(d, n). d \<notin> set ds) (sizes a)
          @ map (\<lambda>d. (d, size_of a d)) ds))\<rparr>"
    using assms by (auto simp: stack_def Let_def split: if_splits)
  show "dims a' = map fst (filter (\<lambda>(x, n). x \<notin> set ds) (sizes a)) @ [new]"
    by (simp add: a')
  show "shape a' = map snd (filter (\<lambda>(x, n). x \<notin> set ds) (sizes a))
           @ [prod_list (map (size_of a) ds)]"
    by (simp add: a' comp_def)
  show "vals a' = vals (reindex a (filter (\<lambda>(x, n). x \<notin> set ds) (sizes a)
           @ map (\<lambda>x. (x, size_of a x)) ds))"
    by (simp add: a')
qed

text \<open>
  C6.  For more than one reduction dimension, \<open>pearson_r\<close> and \<open>pearson_r_p_value\<close> stack
  \<open>a\<close>, then \<open>b\<close>, then the weights if there are any, with the same list of dimensions and
  the same new name, the names joined by an underscore; an error of a stacking is the
  error of the call.  Only then are the weights preprocessed, against the stacked \<open>a\<close> and
  with the joined name as \<open>new_dim\<close>, and the kernel receives the stacked arrays with the
  joined name as the core dimension of each.  The stacked array has the remaining
  dimensions of the original followed by the new one, whose size is the product of the
  sizes of the listed dimensions; its values are those of the original with the listed
  dimensions moved to the end in the order given.
\<close>

theorem correlation_family_stacks:
  "(1 < length ds \<longrightarrow>
      pearson_r u a b (Lst ds) w =
        (case stack a (join ''_'' ds) ds of
           Inl e \<Rightarrow> Inl e
         | Inr a' \<Rightarrow>
             (case stack b (join ''_'' ds) ds of
                Inl e \<Rightarrow> Inl e
              | Inr b' \<Rightarrow>
                  (case w of
                     None \<Rightarrow>
                       Inr (u \<lparr>func = Np_pearson_r, inputs = [a', b', ones_like a'],
                         input_core_dims = replicate 3 [join ''_'' ds], axis = Axis_int (- 1)\<rparr>)
                   | Some w0 \<Rightarrow>
                       (case stack w0 (join ''_'' ds) ds of
                          Inl e \<Rightarrow> Inl e
                        | Inr w' \<Rightarrow>
                            (case preprocess_weights a' ds (Str (join ''_'' ds)) (Some w') of
                               Inl e \<Rightarrow> Inl e
                             | Inr wts \<Rightarrow>
                                 Inr (u \<lparr>func = Np_pearson_r, inputs = [a', b', wts],
                                   input_core_dims = replicate 3 [join ''_'' ds],
                                   axis = Axis_int (- 1)\<rparr>))))))
    \<and> pearson_r_p_value u a b (Lst ds) w =
        (case stack a (join ''_'' ds) ds of
           Inl e \<Rightarrow> Inl e
         | Inr a' \<Rightarrow>
             (case stack b (join ''_'' ds) ds of
                Inl e \<Rightarrow> Inl e
              | Inr b' \<Rightarrow>
                  (case w of
                     None \<Rightarrow>
                       Inr (u \<lparr>func = Np_pearson_r_p_value, inputs = [a', b', ones_like a'],
                         input_core_dims = replicate 3 [join ''_'' ds], axis = Axis_int (- 1)\<rparr>)
                   | Some w0 \<Rightarrow>
                       (case stack w0 (join ''_'' ds) ds of
                          Inl e \<Rightarrow> Inl e
                        | Inr w' \<Rightarrow>
                            (case preprocess_weights a' ds (Str (join ''_'' ds)) (Some w') of
                               Inl e \<Rightarrow> Inl e
                             | Inr wts \<Rightarrow>
                                 Inr (u \<lparr>func = Np_pearson_r_p_value, inputs = [a', b', wts],
                                   input_core_dims = replicate 3 [join ''_'' ds],
                                   axis = Axis_int (- 1)\<rparr>)))))))
   \<and> (1 < length ds \<and> stack x (join ''_'' ds) ds = Inr x' \<longrightarrow>
        dims x' = map fst (filter (\<lambda>(i, n). i \<notin> set ds) (sizes x)) @ [join ''_'' ds]
      \<and> shape x' = map snd (filter (\<lambda>(i, n). i \<notin> set ds) (sizes x))
           @ [prod_list (map (size_of x) ds)]
      \<and> vals x' = vals (reindex x (filter (\<lambda>(i, n). i \<notin> set ds) (sizes x)
           @ map (\<lambda>i. (i, size_of x i)) ds)))"
proof (intro conjI impI)
  have r3: "replicate 3 y = [y, y, y]" for y :: "string list"
    by (simp add: numeral_3_eq_3)
  assume l: "1 < length ds"
  show "pearson_r u a b (Lst ds) w =
        (case stack a (join ''_'' ds) ds of
           Inl e \<Rightarrow> Inl e
         | Inr a' \<Rightarrow>
             (case stack b (join ''_'' ds) ds of
                Inl e \<Rightarrow> Inl e
              | Inr b' \<Rightarrow>
                  (case w of
                     None \<Rightarrow>
                       Inr (u \<lparr>func = Np_pearson_r, inputs = [a', b', ones_like a'],
                         input_core_dims = replicate 3 [join ''_'' ds], axis = Axis_int (- 1)\<rparr>)
                   | Some w0 \<Rightarrow>
                       (case stack w0 (join ''_'' ds) ds of
                          Inl e \<Rightarrow> Inl e
                        | Inr w' \<Rightarrow>
                            (case preprocess_weights a' ds (Str (join ''_'' ds)) (Some w') of
                               Inl e \<Rightarrow> Inl e
                             | Inr wts \<Rightarrow>
                                 Inr (u \<lparr>func = Np_pearson_r, inputs = [a', b', wts],
                                   input_core_dims = replicate 3 [join ''_'' ds],
                                   axis = Axis_int (- 1)\<rparr>))))))"
    by (simp add: pearson_r_stack_inputs stack_inputs_multi [OF l] r3 split: sum.splits option.splits)
  show "pearson_r_p_value u a b (Lst ds) w =
        (case stack a (join ''_'' ds) ds of
           Inl e \<Rightarrow> Inl e
         | Inr a' \<Rightarrow>
             (case stack b (join ''_'' ds) ds of
                Inl e \<Rightarrow> Inl e
              | Inr b' \<Rightarrow>
                  (case w of
                     None \<Rightarrow>
                       Inr (u \<lparr>func = Np_pearson_r_p_value, inputs = [a', b', ones_like a'],
                         input_core_dims = replicate 3 [join ''_'' ds], axis = Axis_int (- 1)\<rparr>)
                   | Some w0 \<Rightarrow>
                       (case stack w0 (join ''_'' ds) ds of
                          Inl e \<Rightarrow> Inl e
                        | Inr w' \<Rightarrow>
                            (case preprocess_weights a' ds (Str (join ''_'' ds)) (Some w') of
                               Inl e \<Rightarrow> Inl e
                             | Inr wts \<Rightarrow>
                                 Inr (u \<lparr>func = Np_pearson_r_p_value, inputs = [a', b', wts],
                                   input_core_dims = replicate 3 [join ''_'' ds],
                                   axis = Axis_int (- 1)\<rparr>))))))"
    by (simp add: pearson_r_p_value_stack_inputs stack_inputs_multi [OF l] r3
        split: sum.splits option.splits)
next
  assume h: "1 < length ds \<and> stack x (join ''_'' ds) ds = Inr x'"
  then have ne: "ds \<noteq> []" and st: "stack x (join ''_'' ds) ds = Inr x'" by auto
  show "dims x' = map fst (filter (\<lambda>(i, n). i \<notin> set ds) (sizes x)) @ [join ''_'' ds]"
    by (rule stack_result(1) [OF ne st])
  show "shape x' = map snd (filter (\<lambda>(i, n). i \<notin> set ds) (sizes x))
           @ [prod_list (map (size_of x) ds)]"
    by (rule stack_result(2) [OF ne st])
  show "vals x' = vals (reindex x (filter (\<lambda>(i, n). i \<notin> set ds) (sizes x)
           @ map (\<lambda>i. (i, size_of x i)) ds))"
    by (rule stack_result(3) [OF ne st])
qed

theorem correlation_family_stacks_witness:
  "1 < length [''x'', ''y'']
   \<and> stack \<lparr>dims = [''x'', ''y''], shape = [2, 2], vals = [Fin 1, Fin 2, Fin 3, Fin 4]\<rparr>
        ''x_y'' [''x'', ''y'']
      = Inr \<lparr>dims = [''x_y''], shape = [4], vals = [Fin 1, Fin 2, Fin 3, Fin 4]\<rparr>
   \<and> pearson_r (\<lambda>c. c)
        \<lparr>dims = [''x'', ''y''], shape = [2, 2], vals = [Fin 1, Fin 2, Fin 3, Fin 4]\<rparr>
        \<lparr>dims = [''x'', ''y''], shape = [2, 2], vals = [Fin 2, Fin 4, Fin 6, Fin 8]\<rparr>
        (Lst [''x'', ''y''])
        (Some \<lparr>dims = [''x'', ''y''], shape = [2, 2], vals = [Fin 1, Fin 2, Fin 3, Fin 4]\<rparr>)
     = Inr \<lparr>func = Np_pearson_r,
         inputs = [\<lparr>dims = [''x_y''], shape = [4], vals = [Fin 1, Fin 2, Fin 3, Fin 4]\<rparr>,
                   \<lparr>dims = [''x_y''], shape = [4], vals = [Fin 2, Fin 4, Fin 6, Fin 8]\<rparr>,
                   \<lparr>dims = [''x_y''], shape = [4],
                     vals = [Fin (1 / 4), Fin (1 / 2), Fin (3 / 4), Fin 1]\<rparr>],
         input_core_dims = [[''x_y''], [''x_y''], [''x_y'']], axis = Axis_int (- 1)\<rparr>
   \<and> pearson_r_p_value (\<lambda>c. c)
        \<lparr>dims = [''x'', ''y''], shape = [2, 2], vals = [Fin 1, Fin 2, Fin 3, Fin 4]\<rparr>
        \<lparr>dims = [''x'', ''y''], shape = [2, 2], vals = [Fin 2, Fin 4, Fin 6, Fin 8]\<rparr>
        (Lst [''x'', ''y'']) None
     = Inr \<lparr>func = Np_pearson_r_p_value,
         inputs = [\<lparr>dims = [''x_y''], shape = [4], vals = [Fin 1, Fin 2, Fin 3, Fin 4]\<rparr>,
                   \<lparr>dims = [''x_y''], shape = [4], vals = [Fin 2, Fin 4, Fin 6, Fin 8]\<rparr>,
                   \<lparr>dims = [''x_y''], shape = [4], vals = [Fin 1, Fin 1, Fin 1, Fin 1]\<rparr>],
         input_core_dims = [[''x_y''], [''x_y''], [''x_y'']], axis = Axis_int (- 1)\<rparr>"
proof -
  let ?a = "\<lparr>dims = [''x'', ''y''], shape = [2, 2], vals = [Fin 1, Fin 2, Fin 3, Fin 4]\<rparr>"
  let ?b = "\<lparr>dims = [''x'', ''y''], shape = [2, 2], vals = [Fin 2, Fin 4, Fin 6, Fin 8]\<rparr>"
  let ?a' = "\<lparr>dims = [''x_y''], shape = [4], vals = [Fin 1, Fin 2, Fin 3, Fin 4]\<rparr>"
  let ?b' = "\<lparr>dims = [''x_y''], shape = [4], vals = [Fin 2, Fin 4, Fin 6, Fin 8]\<rparr>"
  have l: "1 < length [''x'', ''y'']" by simp
  have j: "join ''_'' [''x'', ''y''] = ''x_y''" by simp
  have st: "stack ?a ''x_y'' [''x'', ''y''] = Inr ?a'" "stack ?b ''x_y'' [''x'', ''y''] = Inr ?b'"
    by (simp_all add: stack_def sizes_def size_of_def reindex_def lookup_def offset_def env_of_def
        upt_conv_Cons)
  have pw: "preprocess_weights ?a' [''x'', ''y''] (Str ''x_y'') (Some ?a')
      = Inr \<lparr>dims = [''x_y''], shape = [4],
               vals = [Fin (1 / 4), Fin (1 / 2), Fin (3 / 4), Fin 1]\<rparr>"
    by (simp add: preprocess_weights_Some nanreduce_def fmax2_def fmin2_def Let_def
        isel0_def sizes_def dict_eq_def reindex_def array_div_def py_in_def)
  have r3: "replicate 3 y = [y, y, y]" for y :: "string list"
    by (simp add: numeral_3_eq_3)
  show ?thesis
    using l j st pw
      correlation_family_stacks [where ds = "[''x'', ''y'']" and u = "\<lambda>c. c" and a = ?a
        and b = ?b and w = "Some ?a" and x = ?a and x' = ?a']
      correlation_family_stacks [where ds = "[''x'', ''y'']" and u = "\<lambda>c. c" and a = ?a
        and b = ?b and w = None and x = ?a and x' = ?a']
    by (simp add: r3 ones_like_def)
qed

section \<open>Uniform weights and the substring test\<close>

text \<open>
  C2.  The claim that explicit all-ones weights give the result of no weights fails on
  the correlation functions when another dimension of \<open>a\<close> has a name that occurs inside
  the name of the reduction dimension.  For \<open>a\<close> over \<open>(m, time)\<close> reduced along \<open>time\<close>,
  no weights reach the kernel with all-ones weights, while all-ones weights along \<open>time\<close>
  end in the size-mismatch error: \<open>m\<close> is a substring of \<open>time\<close> and is not dropped.  \<open>rmse\<close>,
  whose \<open>new_dim\<close> is a list, returns the same for both (in general:
  \<open>uniform_weights_error_family\<close> below).
\<close>

theorem uniform_weights_rejected:
  "pearson_r (\<lambda>c. c)
      \<lparr>dims = [''m'', ''time''], shape = [2, 2], vals = [Fin 1, Fin 2, Fin 3, Fin 4]\<rparr>
      \<lparr>dims = [''m'', ''time''], shape = [2, 2], vals = [Fin 2, Fin 4, Fin 6, Fin 8]\<rparr>
      (Str ''time'') None
    = Inr \<lparr>func = Np_pearson_r,
        inputs = [\<lparr>dims = [''m'', ''time''], shape = [2, 2], vals = [Fin 1, Fin 2, Fin 3, Fin 4]\<rparr>,
                  \<lparr>dims = [''m'', ''time''], shape = [2, 2], vals = [Fin 2, Fin 4, Fin 6, Fin 8]\<rparr>,
                  \<lparr>dims = [''m'', ''time''], shape = [2, 2], vals = [Fin 1, Fin 1, Fin 1, Fin 1]\<rparr>],
        input_core_dims = [[''time''], [''time''], [''time'']], axis = Axis_int (- 1)\<rparr>
   \<and> pearson_r (\<lambda>c. c)
      \<lparr>dims = [''m'', ''time''], shape = [2, 2], vals = [Fin 1, Fin 2, Fin 3, Fin 4]\<rparr>
      \<lparr>dims = [''m'', ''time''], shape = [2, 2], vals = [Fin 2, Fin 4, Fin 6, Fin 8]\<rparr>
      (Str ''time'') (Some (series ''time'' [1, 1]))
    = Inl (ValueError (mismatch_msg [''time''] [(''time'', 2)] [(''m'', 2), (''time'', 2)]))
   \<and> pearson_r_p_value (\<lambda>c. c)
      \<lparr>dims = [''m'', ''time''], shape = [2, 2], vals = [Fin 1, Fin 2, Fin 3, Fin 4]\<rparr>
      \<lparr>dims = [''m'', ''time''], shape = [2, 2], vals = [Fin 2, Fin 4, Fin 6, Fin 8]\<rparr>
      (Str ''time'') (Some (series ''time'' [1, 1]))
    = Inl (ValueError (mismatch_msg [''time''] [(''time'', 2)] [(''m'', 2), (''time'', 2)]))
   \<and> rmse (\<lambda>c. c)
      \<lparr>dims = [''m'', ''time''], shape = [2, 2], vals = [Fin 1, Fin 2, Fin 3, Fin 4]\<rparr>
      \<lparr>dims = [''m'', ''time''], shape = [2, 2], vals = [Fin 2, Fin 4, Fin 6, Fin 8]\<rparr>
      (Str ''time'') (Some (series ''time'' [1, 1]))
    = rmse (\<lambda>c. c)
      \<lparr>dims = [''m'', ''time''], shape = [2, 2], vals = [Fin 1, Fin 2, Fin 3, Fin 4]\<rparr>
      \<lparr>dims = [''m'', ''time''], shape = [2, 2], vals = [Fin 2, Fin 4, Fin 6, Fin 8]\<rparr>
      (Str ''time'') None"
  by (simp add: pearson_r_stack_inputs pearson_r_p_value_stack_inputs rmse_def
      stack_inputs_def preprocess_dims_Str
      preprocess_weights_Some series_def nanreduce_def fmax2_def fmin2_def Let_def
      isel0_def sizes_def dict_eq_def reindex_def array_div_def py_in_def ones_like_def
      broadcast_def lookup_def offset_def env_of_def upt_conv_Cons numeral_2_eq_2)

section \<open>Uniform weights where the size check is by list membership\<close>

text \<open>
  For a well-formed array without an empty dimension, explicit all-ones weights over the
  reduction dimensions are accepted and broadcast to the all-ones array of \<open>a\<close>, so that
  \<open>rmse\<close>, \<open>mse\<close> and \<open>mae\<close> return what they return without weights; the correlation
  functions do so for a single dimension when no other dimension name occurs inside it.
\<close>

lemma indices_bounds: "idx \<in> set (indices sh) \<Longrightarrow> list_all2 (\<lambda>i n. i < n) idx sh"
  by (induction sh arbitrary: idx) auto

lemma length_indices: "length (indices sh) = prod_list sh"
proof (induction sh)
  case Nil
  then show ?case by simp
next
  case (Cons n ns)
  have "length (indices (n # ns)) = sum_list (map (\<lambda>i. length (indices ns)) [0..<n])"
    by (simp add: length_concat comp_def)
  also have "\<dots> = n * prod_list ns" by (simp add: Cons.IH sum_list_triv)
  finally show ?case by simp
qed

lemma foldl_offset_bound:
  fixes env :: "string \<Rightarrow> nat" and acc m :: nat
  shows "list_all (\<lambda>(d, n). env d < n) sz \<Longrightarrow> acc < m \<Longrightarrow>
     foldl (\<lambda>acc (d, n). acc * n + env d) acc sz < m * prod_list (map snd sz)"
proof (induction sz arbitrary: acc m)
  case Nil
  then show ?case by simp
next
  case (Cons p sz)
  obtain d n where p: "p = (d, n)" by (cases p)
  from Cons.prems p have e: "env d < n" and rest: "list_all (\<lambda>(d, n). env d < n) sz" by simp_all
  have "Suc acc \<le> m" using Cons.prems(2) by simp
  then have "Suc acc * n \<le> m * n" by (rule mult_le_mono1)
  with e have "acc * n + env d < m * n" by simp
  from Cons.IH [OF rest this] show ?case by (simp add: p mult.assoc)
qed

lemma offset_bound:
  "list_all (\<lambda>(d, n). env d < n) sz \<Longrightarrow> offset sz env < prod_list (map snd sz)"
  using foldl_offset_bound [of env sz 0 1] by (simp add: offset_def)


lemma env_of_bound:
  assumes "distinct (dims a)" "length (shape a) = length (dims a)"
    and idx: "idx \<in> set (indices (shape a))"
    and dn: "(d, n) \<in> set (sizes a)"
  shows "env_of (dims a) idx d < n"
proof -
  from dn obtain k where k: "k < length (dims a)" "dims a ! k = d" "shape a ! k = n"
    using assms(2) by (auto simp: sizes_def in_set_zip)
  have b: "list_all2 (\<lambda>i n. i < n) idx (shape a)" by (rule indices_bounds [OF idx])
  then have len: "length idx = length (shape a)" by (rule list_all2_lengthD)
  have lt: "idx ! k < shape a ! k" using list_all2_nthD2 [OF b, of k] k(1) assms(2) by simp
  have "map_of (zip (dims a) idx) (dims a ! k) = Some (idx ! k)"
    using assms(1,2) len k(1) by (intro map_of_zip_nth) simp_all
  with lt k show ?thesis by (simp add: env_of_def)
qed

lemma sizes_ones_over [simp]: "sizes (ones_over a ds) = restrict_sizes a ds"
  by (simp add: sizes_def ones_over_def zip_map_fst_snd)

lemma restrict_sizes_subset: "set (restrict_sizes a ds) \<subseteq> set (sizes a)"
  by (auto simp: restrict_sizes_def)

lemma lookup_ones_over:
  assumes "wf_array a" and idx: "idx \<in> set (indices (shape a))"
  shows "lookup (ones_over a ds) (env_of (dims a) idx) = Fin 1"
proof -
  from assms(1) have wf: "distinct (dims a)" "length (shape a) = length (dims a)"
    by (simp_all add: wf_array_def)
  have "list_all (\<lambda>(d, n). env_of (dims a) idx d < n) (restrict_sizes a ds)"
    using env_of_bound [OF wf idx] restrict_sizes_subset [of a ds]
    by (auto simp: list_all_iff)
  then have "offset (restrict_sizes a ds) (env_of (dims a) idx)
      < prod_list (map snd (restrict_sizes a ds))"
    by (rule offset_bound)
  then show ?thesis
    unfolding lookup_def sizes_ones_over by (simp add: ones_over_def)
qed

lemma foldl_idem: "f v v = v \<Longrightarrow> foldl f v (replicate k v) = v"
  by (induction k) simp_all

lemma nanreduce_replicate:
  assumes "0 < n" "v \<noteq> NaN" "f v v = v"
  shows "nanreduce f (replicate n v) = v"
proof -
  from assms(1) obtain k where n: "n = Suc k" by (cases n) auto
  have "filter (\<lambda>u. u \<noteq> NaN) (replicate n v) = v # replicate k v"
    using assms(2) by (simp add: n)
  moreover have "foldl f v (replicate k v) = v" using assms(3) by (rule foldl_idem)
  ultimately show ?thesis by (simp add: nanreduce_def)
qed

lemma map_fst_sizes: "length (shape a) = length (dims a) \<Longrightarrow> map fst (sizes a) = dims a"
  by (simp add: sizes_def)

lemma map_snd_sizes: "length (shape a) = length (dims a) \<Longrightarrow> map snd (sizes a) = shape a"
  by (simp add: sizes_def)

lemma restrict_sizes_full:
  assumes "distinct (dims a)" "length (shape a) = length (dims a)"
    and eq: "dict_eq (restrict_sizes a ds) (sizes a)"
  shows "restrict_sizes a ds = sizes a"
proof -
  have dk: "distinct (map fst (sizes a))" using assms(1,2) by (simp add: map_fst_sizes)
  have "d \<in> set ds" if "(d, n) \<in> set (sizes a)" for d n
  proof (rule ccontr)
    assume "d \<notin> set ds"
    then have "map_of (restrict_sizes a ds) d = None"
      by (simp add: restrict_sizes_def map_of_filter_key)
    moreover have "map_of (sizes a) d = Some n" using dk that by (rule map_of_is_SomeI)
    ultimately show False using eq by (simp add: dict_eq_iff)
  qed
  then show ?thesis unfolding restrict_sizes_def by (intro filter_True) auto
qed

lemma preprocess_ones_over:
  assumes wf: "wf_array a" and nz: "0 \<notin> set (shape a)"
    and isel: "isel0 a (filter (\<lambda>i. \<not> py_in i nd) (dims a)) = Inr (reindex a (restrict_sizes a ds))"
  shows "preprocess_weights a ds' nd (Some (ones_over a ds)) = Inr (ones_like a)"
proof -
  from wf have w: "distinct (dims a)" "length (shape a) = length (dims a)"
    "length (vals a) = prod_list (shape a)" by (simp_all add: wf_array_def)
  let ?r = "restrict_sizes a ds"
  let ?n = "prod_list (map snd ?r)"
  have "n \<in> set (shape a)" if "(d, n) \<in> set ?r" for d n
  proof -
    from that restrict_sizes_subset [of a ds] have "(d, n) \<in> set (zip (dims a) (shape a))"
      by (auto simp: sizes_def)
    then show ?thesis by (rule set_zip_rightD)
  qed
  then have "set (map snd ?r) \<subseteq> set (shape a)" by auto
  with nz have "0 \<notin> set (map snd ?r)" by blast
  then have "?n \<noteq> 0" by (simp only: prod_list_zero_iff not_False_eq_True)
  then have pos: "0 < ?n" by simp
  have v: "vals (ones_over a ds) = replicate ?n (Fin 1)" by (simp add: ones_over_def)
  have ne: "vals (ones_over a ds) \<noteq> []" using pos by (simp add: v)
  have mx: "nanreduce fmax2 (vals (ones_over a ds)) = Fin 1"
    unfolding v by (rule nanreduce_replicate [OF pos]) (simp_all add: fmax2_def)
  have dv: "array_div (ones_over a ds) (Fin 1) = ones_over a ds"
    by (simp add: array_div_def ones_over_def)
  have mn: "nanreduce fmin2 (vals (ones_over a ds)) = Fin 1"
    unfolding v by (rule nanreduce_replicate [OF pos]) (simp_all add: fmin2_def)
  have same: "dict_eq ?r ?r" by (simp add: dict_eq_iff)
  have ones: "ones_like a = \<lparr>dims = dims a, shape = shape a,
      vals = replicate (prod_list (shape a)) (Fin 1)\<rparr>"
    by (simp add: ones_like_def w(3) [symmetric] map_replicate_const)
  have mn': "nanreduce fmin2 (map (\<lambda>v. fdiv v (Fin 1)) (vals (ones_over a ds))) = Fin 1"
    using mn by (simp add: v)
  have res: "preprocess_weights a ds' nd (Some (ones_over a ds)) =
      (if \<not> dict_eq ?r (sizes a)
       then (case broadcast a (ones_over a ds) of Inl e \<Rightarrow> Inl e | Inr (_, w2) \<Rightarrow> Inr w2)
       else Inr (ones_over a ds))"
    by (simp add: preprocess_weights_Some ne mx dv mn mn' isel same Let_def)
  show ?thesis
  proof (cases "dict_eq ?r (sizes a)")
    case True
    have "?r = sizes a" by (rule restrict_sizes_full [OF w(1,2) True])
    then have o: "ones_over a ds = ones_like a"
      by (simp add: ones_over_def ones map_fst_sizes [OF w(2)] map_snd_sizes [OF w(2)])
    have "preprocess_weights a ds' nd (Some (ones_over a ds)) = Inr (ones_over a ds)"
      using True by (simp only: res if_False not_True_eq_False)
    then show ?thesis by (simp only: o)
  next
    case False
    have dk: "distinct (map fst (sizes a))" using w(1,2) by (simp add: map_fst_sizes)
    have agree: "map_of (sizes a) d = Some n" if "(d, n) \<in> set ?r" for d n
      using dk restrict_sizes_subset [of a ds] that by (intro map_of_is_SomeI) auto
    have noconf: "\<not> list_ex (\<lambda>(d, n). case map_of (sizes a) d of Some m \<Rightarrow> m \<noteq> n | None \<Rightarrow> False) ?r"
      using agree by (auto simp: list_ex_iff)
    have nonew: "filter (\<lambda>(d, n). d \<notin> set (dims a)) ?r = []"
      using restrict_sizes_subset [of a ds] sizes_fst_dims [of _ _ a]
      by (auto simp: filter_empty_conv)
    have "vals (reindex (ones_over a ds) (sizes a))
        = map (\<lambda>idx. Fin 1) (indices (shape a))"
      using lookup_ones_over [OF wf]
      by (simp add: reindex_def map_fst_sizes [OF w(2)] map_snd_sizes [OF w(2)])
    then have "reindex (ones_over a ds) (sizes a) = ones_like a"
      by (simp add: reindex_def ones map_fst_sizes [OF w(2)] map_snd_sizes [OF w(2)]
          map_replicate_const length_indices)
    then have "broadcast a (ones_over a ds)
        = Inr (reindex a (sizes a), ones_like a)"
      using noconf nonew by (simp add: broadcast_def)
    with False show ?thesis by (simp add: res)
  qed
qed


lemma other_dims_nonempty_nz: "0 \<notin> set (shape a) \<Longrightarrow> other_dims_nonempty a ds"
proof -
  assume nz: "0 \<notin> set (shape a)"
  have "n \<noteq> 0" if "(d, n) \<in> set (sizes a)" for d n
  proof -
    from that have "(d, n) \<in> set (zip (dims a) (shape a))" by (simp add: sizes_def)
    then have "n \<in> set (shape a)" by (rule set_zip_rightD)
    with nz show ?thesis by metis
  qed
  then show ?thesis by (auto simp: other_dims_nonempty_def list_ex_iff)
qed

lemma uniform_weights_error_family:
  assumes "wf_array a" "0 \<notin> set (shape a)"
  shows "rmse u a b d (Some (ones_over a (fst (preprocess_dims d)))) = rmse u a b d None"
    and "mse u a b d (Some (ones_over a (fst (preprocess_dims d)))) = mse u a b d None"
    and "mae u a b d (Some (ones_over a (fst (preprocess_dims d)))) = mae u a b d None"
proof -
  obtain ds ax where d: "preprocess_dims d = (ds, ax)" by (cases "preprocess_dims d")
  have "preprocess_weights a ds (Lst ds) (Some (ones_over a ds)) = Inr (ones_like a)"
    by (rule preprocess_ones_over [OF assms isel0_Lst [OF other_dims_nonempty_nz [OF assms(2)]]])
  then show "rmse u a b d (Some (ones_over a (fst (preprocess_dims d)))) = rmse u a b d None"
    and "mse u a b d (Some (ones_over a (fst (preprocess_dims d)))) = mse u a b d None"
    and "mae u a b d (Some (ones_over a (fst (preprocess_dims d)))) = mae u a b d None"
    by (simp_all add: rmse_def mse_def mae_def d)
qed

lemma uniform_weights_correlation_single:
  assumes "wf_array a" "0 \<notin> set (shape a)"
    and "fst (preprocess_dims d) = [s]" "no_substring_clash a s"
  shows "pearson_r u a b d (Some (ones_over a [s])) = pearson_r u a b d None"
    and "pearson_r_p_value u a b d (Some (ones_over a [s])) = pearson_r_p_value u a b d None"
proof -
  have "preprocess_weights a [s] (Str s) (Some (ones_over a [s])) = Inr (ones_like a)"
    by (rule preprocess_ones_over [OF assms(1,2)
          isel0_Str [OF other_dims_nonempty_nz [OF assms(2)] assms(4)]])
  then have "stack_inputs a b d (Some (ones_over a [s])) = stack_inputs a b d None"
    by (simp add: stack_inputs_single [OF assms(3)])
  then show "pearson_r u a b d (Some (ones_over a [s])) = pearson_r u a b d None"
    and "pearson_r_p_value u a b d (Some (ones_over a [s])) = pearson_r_p_value u a b d None"
    by (simp_all add: pearson_r_stack_inputs pearson_r_p_value_stack_inputs)
qed


section \<open>Stacking all dimensions is row-major flattening\<close>

lemma offset_as_digits:
  fixes env :: "string \<Rightarrow> nat" and acc :: nat
  shows "foldl (\<lambda>acc (d, n). acc * n + env d) acc (zip ds sh)
    = foldl (\<lambda>acc (i, n). acc * n + i) acc (zip (map env ds) sh)"
proof (induction ds arbitrary: sh acc)
  case Nil
  then show ?case by simp
next
  case (Cons d ds)
  then show ?case by (cases sh) simp_all
qed

lemma env_of_own_dims:
  assumes "distinct ds" "length idx = length ds"
  shows "map (env_of ds idx) ds = idx"
proof (rule nth_equalityI)
  show "length (map (env_of ds idx) ds) = length idx" using assms(2) by simp
next
  fix k assume "k < length (map (env_of ds idx) ds)"
  then have k: "k < length ds" by simp
  have "map_of (zip ds idx) (ds ! k) = Some (idx ! k)"
    using assms k by (intro map_of_zip_nth) simp_all
  then show "map (env_of ds idx) ds ! k = idx ! k" using k by (simp add: env_of_def)
qed

lemma concat_blocks:
  "concat (map (\<lambda>i. [(c + i) * p..<(c + i + 1) * p]) [0..<n]) = [c * p..<(c + n) * p]"
proof (induction n)
  case 0
  then show ?case by simp
next
  case (Suc n)
  have "[c * p..<(c + n) * p + p] = [c * p..<(c + n) * p] @ [(c + n) * p..<(c + n) * p + p]"
    by (intro upt_add_eq_append) (simp add: algebra_simps)
  then show ?case using Suc by (simp add: algebra_simps)
qed

lemma digits_enumerate:
  "map (\<lambda>idx. foldl (\<lambda>acc (i, n). acc * n + i) acc (zip idx sh)) (indices sh)
     = [acc * prod_list sh..<(acc + 1) * prod_list sh]"
proof (induction sh arbitrary: acc)
  case Nil
  then show ?case by simp
next
  case (Cons n ns)
  let ?g = "\<lambda>acc (i :: nat, n :: nat). acc * n + i"
  have "map (\<lambda>idx. foldl ?g acc (zip idx (n # ns))) (indices (n # ns))
      = concat (map (\<lambda>i. map (\<lambda>idx. foldl ?g (acc * n + i) (zip idx ns)) (indices ns)) [0..<n])"
    by (simp add: map_concat comp_def)
  also have "\<dots> = concat (map (\<lambda>i. [(acc * n + i) * prod_list ns..<(acc * n + i + 1) * prod_list ns]) [0..<n])"
    by (simp add: Cons.IH)
  also have "\<dots> = [acc * n * prod_list ns..<(acc * n + n) * prod_list ns]"
    by (rule concat_blocks)
  finally show ?case by (simp add: algebra_simps)
qed

lemma indices_length: "idx \<in> set (indices sh) \<Longrightarrow> length idx = length sh"
  using indices_bounds list_all2_lengthD by blast

lemma reindex_self:
  assumes "wf_array a"
  shows "reindex a (sizes a) = a"
proof -
  from assms have w: "distinct (dims a)" "length (shape a) = length (dims a)"
    "length (vals a) = prod_list (shape a)" by (simp_all add: wf_array_def)
  have "offset (sizes a) (env_of (dims a) idx)
      = foldl (\<lambda>acc (i, n). acc * n + i) 0 (zip idx (shape a))"
    if "idx \<in> set (indices (shape a))" for idx
    using indices_length [OF that] w(1,2)
    by (simp add: offset_def sizes_def offset_as_digits env_of_own_dims)
  then have "map (\<lambda>idx. lookup a (env_of (dims a) idx)) (indices (shape a))
      = map (\<lambda>idx. vals a ! foldl (\<lambda>acc (i, n). acc * n + i) 0 (zip idx (shape a)))
          (indices (shape a))"
    by (simp add: lookup_def)
  also have "\<dots> = map ((!) (vals a))
      (map (\<lambda>idx. foldl (\<lambda>acc (i, n). acc * n + i) 0 (zip idx (shape a))) (indices (shape a)))"
    by (simp add: comp_def)
  also have "\<dots> = map ((!) (vals a)) [0..<length (vals a)]"
    by (simp only: digits_enumerate w(3)) simp
  also have "\<dots> = vals a" by (rule map_nth)
  finally show ?thesis
    by (simp add: reindex_def map_fst_sizes [OF w(2)] map_snd_sizes [OF w(2)])
qed

lemma stack_all_dims:
  assumes "wf_array a" "dims a \<noteq> []" "new \<notin> set (dims a)"
  shows "stack a new (dims a)
    = Inr \<lparr>dims = [new], shape = [prod_list (shape a)], vals = vals a\<rparr>"
proof -
  from assms(1) have w: "distinct (dims a)" "length (shape a) = length (dims a)"
    by (simp_all add: wf_array_def)
  have none: "filter (\<lambda>(d, n). d \<notin> set (dims a)) (sizes a) = []"
    using sizes_fst_dims [of _ _ a] by (auto simp: filter_empty_conv)
  have dk: "distinct (map fst (sizes a))" using w by (simp add: map_fst_sizes)
  have "map (\<lambda>d. (d, size_of a d)) (map fst (sizes a)) = sizes a"
  proof -
    have "(fst p, size_of a (fst p)) = p" if "p \<in> set (sizes a)" for p
    proof -
      obtain d n where p: "p = (d, n)" by (cases p)
      with that dk have "map_of (sizes a) d = Some n" by (intro map_of_is_SomeI) auto
      then show ?thesis by (simp add: p size_of_def)
    qed
    then have "map (\<lambda>p. (fst p, size_of a (fst p))) (sizes a) = sizes a" by (simp add: map_idI)
    then show ?thesis by (simp add: comp_def)
  qed
  then have core: "map (\<lambda>d. (d, size_of a d)) (dims a) = sizes a"
    by (simp add: map_fst_sizes [OF w(2)])
  show ?thesis
    using assms(2,3) w(1)
    by (simp add: stack_def none core reindex_self [OF assms(1)] list_all_iff
        map_snd_sizes [OF w(2)])
qed

end
